theory Spec2Isabelle
  imports
    Complex_Main
    "HOL-Library.Char_ord"
    "HOL-Library.List_Lexorder"
    "HOL-Library.Product_Lexorder"
    "HOL-Library.Multiset"
begin

section \<open>Cells, rows and tables\<close>

text \<open>
  The pipeline of \<^verbatim>\<open>weather_pipeline.py\<close> keeps one pandas DataFrame in \<^verbatim>\<open>self.df\<close>.
  A table is modelled as its header (the column labels that are present) and its rows;
  a row has one typed cell for every column the code names, and the raw text of every
  other column.  Floating point numbers are modelled as rationals; a missing value
  (NaN, NaT, None) is a constructor of its own.

  A timestamp is (year, month, day, nanosecond of the day); the lexicographic order of
  the product is the chronological order.
\<close>

type_synonym timestamp = "int \<times> int \<times> int \<times> int"

definition ts_year :: "timestamp \<Rightarrow> int" where
  "ts_year t = fst t"

definition ts_month :: "timestamp \<Rightarrow> int" where
  "ts_month t = fst (snd t)"

definition ts_day :: "timestamp \<Rightarrow> int" where
  "ts_day t = fst (snd (snd t))"

text \<open>
  A cell of the \<^verbatim>\<open>date\<close> column: missing, a parsed timestamp, or text that the
  CSV reader left unparsed (the column then has dtype object).
\<close>

datatype date_cell = NaT | Timestamp timestamp | DateText string

text \<open>
  A cell of a numeric column: missing, a number, or text of a column that the CSV reader
  could not read as numbers (dtype object).
\<close>

datatype num_cell = NaN | Number rat | Text string

record row =
  date :: date_cell
  city :: "string option"
  temperature_celsius :: num_cell
  humidity_percent :: num_cell
  wind_speed_kph :: num_cell
  weather_condition :: "string option"
  year :: "int option"
  month :: "int option"
  day :: "int option"
  temperature_fahrenheit :: num_cell
  extra :: "(string \<times> string option) list"

record table =
  columns :: "string list"
  rows :: "row list"

text \<open>\<^verbatim>\<open>df[col]\<close> and \<^verbatim>\<open>df[col] = ...\<close> for the numeric columns, by label.\<close>

definition num_get :: "string \<Rightarrow> row \<Rightarrow> num_cell" where
  "num_get col r =
     (if col = ''temperature_celsius'' then temperature_celsius r
      else if col = ''humidity_percent'' then humidity_percent r
      else if col = ''wind_speed_kph'' then wind_speed_kph r
      else if col = ''temperature_fahrenheit'' then temperature_fahrenheit r
      else NaN)"

definition num_set :: "string \<Rightarrow> num_cell \<Rightarrow> row \<Rightarrow> row" where
  "num_set col v r =
     (if col = ''temperature_celsius'' then r\<lparr>temperature_celsius := v\<rparr>
      else if col = ''humidity_percent'' then r\<lparr>humidity_percent := v\<rparr>
      else if col = ''wind_speed_kph'' then r\<lparr>wind_speed_kph := v\<rparr>
      else if col = ''temperature_fahrenheit'' then r\<lparr>temperature_fahrenheit := v\<rparr>
      else r)"

section \<open>The library and the outside world\<close>

text \<open>
  The source of a CSV file as \<^verbatim>\<open>pd.read_csv\<close> meets it: unreadable (the operating
  system's message), not parseable as CSV (the parser's message), or a header and the
  records below it, each a list of fields.
\<close>

datatype source = Unreadable string | Malformed string | Csv "string list" "string list list"

text \<open>
  What the code takes from pandas, numpy and the operating system without fixing it:
  the text parsers, the default missing-value tokens of \<^verbatim>\<open>read_csv\<close>, the sorting
  kernels of \<^verbatim>\<open>kind='quicksort'\<close> (the default of \<^verbatim>\<open>sort_values\<close>; each returns the
  positions of its keys in sorted order), \<^verbatim>\<open>describe\<close>, \<^verbatim>\<open>value_counts\<close>, and the file
  system.
\<close>

record env =
  files :: "string \<Rightarrow> source"
  writable :: "string \<Rightarrow> bool"
  default_na :: "string list"
  parse_number :: "string \<Rightarrow> rat option"
  parse_date_dayfirst :: "string \<Rightarrow> timestamp option"
  to_datetime :: "string \<Rightarrow> timestamp option"
  quicksort_datetime :: "timestamp list \<Rightarrow> nat list"
  quicksort_float :: "rat list \<Rightarrow> nat list"
  describe :: "num_cell list \<Rightarrow> rat option list"
  value_counts :: "string list \<Rightarrow> (string \<times> nat) list"

section \<open>Column operations of the cleaner\<close>

text \<open>\<^verbatim>\<open>pd.to_datetime(..., errors='coerce')\<close>, cell by cell: text that fails to parse becomes NaT.\<close>

definition to_datetime_coerce :: "env \<Rightarrow> date_cell \<Rightarrow> date_cell" where
  "to_datetime_coerce e c =
     (case c of
        NaT \<Rightarrow> NaT
      | Timestamp t \<Rightarrow> Timestamp t
      | DateText s \<Rightarrow> (case to_datetime e s of None \<Rightarrow> NaT | Some t \<Rightarrow> Timestamp t))"

definition coerce_dates :: "env \<Rightarrow> row list \<Rightarrow> row list" where
  "coerce_dates e rs = map (\<lambda>r. r\<lparr>date := to_datetime_coerce e (date r)\<rparr>) rs"

text \<open>\<^verbatim>\<open>df.dropna(subset=['date'])\<close>.\<close>

definition dropna_date :: "row list \<Rightarrow> row list" where
  "dropna_date rs = filter (\<lambda>r. date r \<noteq> NaT) rs"

text \<open>
  \<^verbatim>\<open>.astype(str).str.lower().str.strip()\<close>.  The string cast renders the missing marker
  as the text \<^verbatim>\<open>nan\<close>.  Characters are bytes: \<^verbatim>\<open>lower\<close> maps the ASCII capitals, and
  \<^verbatim>\<open>strip\<close> removes the ASCII white space Python's \<^verbatim>\<open>str.strip()\<close> removes.
\<close>

definition astype_str :: "string option \<Rightarrow> string" where
  "astype_str c = (case c of None \<Rightarrow> ''nan'' | Some s \<Rightarrow> s)"

definition lower_char :: "char \<Rightarrow> char" where
  "lower_char c =
     (if 65 \<le> (of_char c :: nat) \<and> (of_char c :: nat) \<le> 90
      then char_of (of_char c + 32 :: nat) else c)"

definition lower :: "string \<Rightarrow> string" where
  "lower s = map lower_char s"

definition is_space :: "char \<Rightarrow> bool" where
  "is_space c =
     ((9 \<le> (of_char c :: nat) \<and> (of_char c :: nat) \<le> 13)
      \<or> (28 \<le> (of_char c :: nat) \<and> (of_char c :: nat) \<le> 32))"

definition strip :: "string \<Rightarrow> string" where
  "strip s = rev (dropWhile is_space (rev (dropWhile is_space s)))"

definition normalize_condition :: "string option \<Rightarrow> string option" where
  "normalize_condition c = Some (strip (lower (astype_str c)))"

definition normalize_conditions :: "row list \<Rightarrow> row list" where
  "normalize_conditions rs =
     map (\<lambda>r. r\<lparr>weather_condition := normalize_condition (weather_condition r)\<rparr>) rs"

text \<open>\<^verbatim>\<open>df[~df['weather_condition'].isin(['unknown', ''])]\<close>.\<close>

definition isin :: "string option \<Rightarrow> string list \<Rightarrow> bool" where
  "isin c vs = (case c of None \<Rightarrow> False | Some s \<Rightarrow> s \<in> set vs)"

definition filter_conditions :: "row list \<Rightarrow> row list" where
  "filter_conditions rs = filter (\<lambda>r. \<not> isin (weather_condition r) [''unknown'', '''']) rs"

text \<open>
  \<^verbatim>\<open>Series.median()\<close> skips missing values; it is NaN when none is left; on a column of
  text it raises a TypeError.
\<close>

definition is_text :: "num_cell \<Rightarrow> bool" where
  "is_text c = (case c of Text s \<Rightarrow> True | _ \<Rightarrow> False)"

definition isna :: "num_cell \<Rightarrow> bool" where
  "isna c = (c = NaN)"

definition notna_values :: "num_cell list \<Rightarrow> rat list" where
  "notna_values cs = List.map_filter (\<lambda>c. case c of Number q \<Rightarrow> Some q | _ \<Rightarrow> None) cs"

definition median_sorted :: "rat list \<Rightarrow> rat option" where
  "median_sorted ys =
     (let n = length ys in
      if n = 0 then None
      else if odd n then Some (ys ! (n div 2))
      else Some ((ys ! (n div 2 - 1) + ys ! (n div 2)) / 2))"

definition median :: "num_cell list \<Rightarrow> rat option" where
  "median cs = median_sorted (sort (notna_values cs))"

text \<open>\<^verbatim>\<open>x.fillna(m)\<close>: a missing cell takes the value \<open>m\<close>, which may itself be NaN.\<close>

definition fillna :: "rat option \<Rightarrow> num_cell \<Rightarrow> num_cell" where
  "fillna m c =
     (case c of
        NaN \<Rightarrow> (case m of None \<Rightarrow> NaN | Some q \<Rightarrow> Number q)
      | _ \<Rightarrow> c)"

text \<open>
  \<^verbatim>\<open>df.groupby('city')[col].transform(lambda x: x.fillna(x.median()))\<close>.
  The groups are the rows of one city; rows whose city is missing belong to no group
  (\<^verbatim>\<open>dropna=True\<close>) and get NaN in the result.  The median of a group that holds text
  raises.
\<close>

definition group_cells :: "string \<Rightarrow> string \<Rightarrow> row list \<Rightarrow> num_cell list" where
  "group_cells col k rs = map (num_get col) (filter (\<lambda>r. city r = Some k) rs)"

definition group_raises :: "string \<Rightarrow> row list \<Rightarrow> bool" where
  "group_raises col rs = list_ex (\<lambda>r. city r \<noteq> None \<and> is_text (num_get col r)) rs"

definition group_fill_cell :: "string \<Rightarrow> row list \<Rightarrow> row \<Rightarrow> num_cell" where
  "group_fill_cell col rs r =
     (case city r of
        None \<Rightarrow> NaN
      | Some k \<Rightarrow> fillna (median (group_cells col k rs)) (num_get col r))"

definition group_fill :: "string \<Rightarrow> row list \<Rightarrow> row list" where
  "group_fill col rs = map (\<lambda>r. num_set col (group_fill_cell col rs r) r) rs"

text \<open>\<^verbatim>\<open>df[col].fillna(df[col].median())\<close>, run when \<^verbatim>\<open>df[col].isna().any()\<close>.\<close>

definition global_fill :: "string \<Rightarrow> row list \<Rightarrow> row list" where
  "global_fill col rs =
     (if list_ex (\<lambda>r. isna (num_get col r)) rs
      then map (\<lambda>r. num_set col (fillna (median (map (num_get col) rs)) (num_get col r)) r) rs
      else rs)"


text \<open>The same check for the column-wide median: it is taken only when a cell is missing.\<close>

definition global_raises :: "string \<Rightarrow> row list \<Rightarrow> bool" where
  "global_raises col rs =
     (list_ex (\<lambda>r. isna (num_get col r)) rs \<and> list_ex (\<lambda>r. is_text (num_get col r)) rs)"

section \<open>Column operations of the transformer\<close>

text \<open>
  \<^verbatim>\<open>df.sort_values('date')\<close> with the defaults \<^verbatim>\<open>kind='quicksort'\<close> and
  \<^verbatim>\<open>na_position='last'\<close>: the rows with a date are taken in the order the sorting kernel
  returns for their keys, the rows without one follow in their original order.
  \<open>take_rows\<close> is numpy's \<^verbatim>\<open>take\<close>; a position outside the list, which a sorting kernel
  never returns, selects nothing.
\<close>

definition take_rows :: "'a list \<Rightarrow> nat list \<Rightarrow> 'a list" where
  "take_rows xs ps = concat (map (\<lambda>i. if i < length xs then [xs ! i] else []) ps)"

definition date_key :: "row \<Rightarrow> timestamp" where
  "date_key r = (case date r of Timestamp t \<Rightarrow> t | _ \<Rightarrow> (0, 0, 0, 0))"

definition sort_values_date :: "env \<Rightarrow> row list \<Rightarrow> row list" where
  "sort_values_date e rs =
     (let dated = filter (\<lambda>r. date r \<noteq> NaT) rs;
          undated = filter (\<lambda>r. date r = NaT) rs
      in take_rows dated (quicksort_datetime e (map date_key dated)) @ undated)"

text \<open>\<^verbatim>\<open>df['date'].dt.year\<close>, \<^verbatim>\<open>.dt.month\<close>, \<^verbatim>\<open>.dt.day\<close>: missing where the date is.\<close>

definition dt_part :: "(timestamp \<Rightarrow> int) \<Rightarrow> date_cell \<Rightarrow> int option" where
  "dt_part f c = (case c of Timestamp t \<Rightarrow> Some (f t) | _ \<Rightarrow> None)"

definition date_parts :: "row list \<Rightarrow> row list" where
  "date_parts rs =
     map (\<lambda>r. r\<lparr>year := dt_part ts_year (date r),
                month := dt_part ts_month (date r),
                day := dt_part ts_day (date r)\<rparr>) rs"

text \<open>\<^verbatim>\<open>(df['temperature_celsius'] * 9/5) + 32\<close>: NaN stays NaN, text raises a TypeError.\<close>

definition fahrenheit :: "num_cell \<Rightarrow> num_cell" where
  "fahrenheit c = (case c of Number q \<Rightarrow> Number (q * 9 / 5 + 32) | _ \<Rightarrow> NaN)"

definition add_fahrenheit :: "row list \<Rightarrow> row list" where
  "add_fahrenheit rs =
     map (\<lambda>r. r\<lparr>temperature_fahrenheit := fahrenheit (temperature_celsius r)\<rparr>) rs"

definition add_columns :: "string list \<Rightarrow> string list \<Rightarrow> string list" where
  "add_columns names cols = cols @ filter (\<lambda>n. n \<notin> set cols) names"

section \<open>The pipeline object and its effects\<close>

text \<open>
  Python exceptions, by class.  The code raises \<^verbatim>\<open>ValueError\<close> itself, with the message
  kept here; the others come from pandas and the operating system.
\<close>

datatype error = OSError string | ParserError string | ValueError string | KeyError string | TypeError

text \<open>The lines the code prints, one constructor for each \<^verbatim>\<open>print\<close> of the source.\<close>

datatype message =
    Starting
  | Error_loading error
  | Dropped_dates nat
  | Dropped_conditions nat
  | Processed_saved string
  | Result_saved string string
  | Report_saved string
  | Plot_saved string
  | Completed
  | Error_in_pipeline error

text \<open>The four views \<^verbatim>\<open>analyze_data\<close> returns.\<close>

datatype view =
    BasicStats "(string \<times> rat option list) list"
  | CityStats "(string \<times> (string \<times> rat option list) list) list"
  | WeatherFreq "(string \<times> nat) list"
  | TopCities "(string \<times> rat option) list"

text \<open>
  Objects live in a store, addressed by position: \<^verbatim>\<open>self.df = ...\<close> binds the attribute
  to a new object, \<^verbatim>\<open>self.df[col] = ...\<close> changes the object the attribute refers to.
\<close>

datatype obj = Frame table | View view

record state =
  input_file :: string
  output_dir :: string
  df :: "nat option"
  heap :: "obj list"
  stdout :: "message list"
  written :: "string list"

type_synonym 'a outcome = "(error + 'a) \<times> state"

definition required_columns :: "string list" where
  "required_columns =
     [''date'', ''city'', ''temperature_celsius'', ''humidity_percent'',
      ''wind_speed_kph'', ''weather_condition'']"

definition frame :: "state \<Rightarrow> table option" where
  "frame s =
     (case df s of
        None \<Rightarrow> None
      | Some a \<Rightarrow>
          (if a < length (heap s)
           then (case heap s ! a of Frame t \<Rightarrow> Some t | View v \<Rightarrow> None)
           else None))"

definition assign_df :: "table \<Rightarrow> state \<Rightarrow> state" where
  "assign_df t s = s\<lparr>df := Some (length (heap s)), heap := heap s @ [Frame t]\<rparr>"

definition update_df :: "table \<Rightarrow> state \<Rightarrow> state" where
  "update_df t s =
     (case df s of None \<Rightarrow> s | Some a \<Rightarrow> s\<lparr>heap := (heap s)[a := Frame t]\<rparr>)"

definition print :: "message \<Rightarrow> state \<Rightarrow> state" where
  "print m s = s\<lparr>stdout := stdout s @ [m]\<rparr>"

text \<open>Statements in sequence: the first exception ends the run, the state stays as it is then.\<close>

fun run_steps :: "(state \<Rightarrow> unit outcome) list \<Rightarrow> state \<Rightarrow> unit outcome" where
  "run_steps [] s = (Inr (), s)"
| "run_steps (f # fs) s =
     (case f s of
        (Inl err, s') \<Rightarrow> (Inl err, s')
      | (Inr u, s') \<Rightarrow> run_steps fs s')"

text \<open>A statement that reads \<^verbatim>\<open>self.df\<close>; on anything but a DataFrame Python raises.\<close>

definition with_frame :: "(table \<Rightarrow> state \<Rightarrow> unit outcome) \<Rightarrow> state \<Rightarrow> unit outcome" where
  "with_frame f s = (case frame s of None \<Rightarrow> (Inl TypeError, s) | Some t \<Rightarrow> f t s)"

definition check_loaded :: "state \<Rightarrow> unit outcome" where
  "check_loaded s =
     (if df s = None then (Inl (ValueError ''Data not loaded. Call load_data() first.''), s)
      else (Inr (), s))"

section \<open>Loader\<close>

text \<open>
  \<^verbatim>\<open>pd.read_csv(self.input_file, parse_dates=["date"], dayfirst=True, na_values=[...])\<close>.
  A field is missing when its column is absent from the record or its text is one of the
  missing-value tokens: those of the call and the defaults of the library.  A numeric
  column whose fields all read as numbers holds numbers, otherwise it keeps the text of
  its fields; the date column likewise holds timestamps only when every field parses.
  A \<^verbatim>\<open>parse_dates\<close> column that the file lacks makes \<^verbatim>\<open>read_csv\<close> raise a ValueError.
\<close>

definition na_values :: "string list" where
  "na_values = ['''', '' '', ''NA'', ''N/A'', ''NaN'', ''None'', ''unknown'', ''Unknown'']"

definition is_na :: "env \<Rightarrow> string \<Rightarrow> bool" where
  "is_na e tok = (tok \<in> set (na_values @ default_na e))"

definition field :: "env \<Rightarrow> string list \<Rightarrow> string list \<Rightarrow> string \<Rightarrow> string option" where
  "field e header record col =
     (case map_of (zip header record) col of
        None \<Rightarrow> None
      | Some tok \<Rightarrow> (if is_na e tok then None else Some tok))"

definition all_parse :: "(string \<Rightarrow> 'a option) \<Rightarrow> env \<Rightarrow> string list \<Rightarrow> string list list \<Rightarrow> string \<Rightarrow> bool" where
  "all_parse parse e header records col =
     list_all (\<lambda>record. case field e header record col of None \<Rightarrow> True | Some tok \<Rightarrow> parse tok \<noteq> None)
       records"

definition read_num :: "env \<Rightarrow> bool \<Rightarrow> string option \<Rightarrow> num_cell" where
  "read_num e numeric fld =
     (case fld of
        None \<Rightarrow> NaN
      | Some tok \<Rightarrow>
          (if numeric
           then (case parse_number e tok of None \<Rightarrow> Text tok | Some q \<Rightarrow> Number q)
           else Text tok))"

definition read_date :: "env \<Rightarrow> bool \<Rightarrow> string option \<Rightarrow> date_cell" where
  "read_date e dates fld =
     (case fld of
        None \<Rightarrow> NaT
      | Some tok \<Rightarrow>
          (if dates
           then (case parse_date_dayfirst e tok of None \<Rightarrow> DateText tok | Some t \<Rightarrow> Timestamp t)
           else DateText tok))"

definition typed_columns :: "string list" where
  "typed_columns =
     [''date'', ''city'', ''temperature_celsius'', ''humidity_percent'', ''wind_speed_kph'',
      ''weather_condition'', ''temperature_fahrenheit'']"

definition read_row :: "env \<Rightarrow> string list \<Rightarrow> string list list \<Rightarrow> string list \<Rightarrow> row" where
  "read_row e header records record =
     (let num = (\<lambda>col. read_num e (all_parse (parse_number e) e header records col)
                         (field e header record col))
      in \<lparr>date = read_date e (all_parse (parse_date_dayfirst e) e header records ''date'')
                  (field e header record ''date''),
          city = field e header record ''city'',
          temperature_celsius = num ''temperature_celsius'',
          humidity_percent = num ''humidity_percent'',
          wind_speed_kph = num ''wind_speed_kph'',
          weather_condition = field e header record ''weather_condition'',
          year = None, month = None, day = None,
          temperature_fahrenheit = num ''temperature_fahrenheit'',
          extra = map (\<lambda>col. (col, field e header record col))
                    (filter (\<lambda>col. col \<notin> set typed_columns) header)\<rparr>)"

definition quoted :: "string \<Rightarrow> string" where
  "quoted s = [CHR 0x27] @ s @ [CHR 0x27]"

definition read_csv :: "env \<Rightarrow> string \<Rightarrow> error + table" where
  "read_csv e path =
     (case files e path of
        Unreadable msg \<Rightarrow> Inl (OSError msg)
      | Malformed msg \<Rightarrow> Inl (ParserError msg)
      | Csv header records \<Rightarrow>
          (if ''date'' \<in> set header
           then Inr \<lparr>columns = header, rows = map (read_row e header records) records\<rparr>
           else Inl (ValueError (''Missing column provided to '' @ quoted ''parse_dates''
                                 @ '': '' @ quoted ''date''))))"

fun join :: "string \<Rightarrow> string list \<Rightarrow> string" where
  "join sep [] = []"
| "join sep [x] = x"
| "join sep (x # y # ys) = x @ sep @ join sep (y # ys)"

text \<open>
  \<^verbatim>\<open>load_data\<close>: the table is bound to \<^verbatim>\<open>self.df\<close> before the required columns are
  checked; every exception is printed and raised again.
\<close>

definition load_data :: "env \<Rightarrow> state \<Rightarrow> unit outcome" where
  "load_data e s =
     (case read_csv e (input_file s) of
        Inl err \<Rightarrow> (Inl err, print (Error_loading err) s)
      | Inr t \<Rightarrow>
          (let s1 = assign_df t s;
               missing_cols = filter (\<lambda>col. col \<notin> set (columns t)) required_columns
           in if missing_cols \<noteq> []
              then (let err = ValueError (''Missing required columns: '' @ join '', '' missing_cols)
                    in (Inl err, print (Error_loading err) s1))
              else (Inr (), s1)))"

section \<open>Cleaner\<close>

definition coerce_date_column :: "env \<Rightarrow> state \<Rightarrow> unit outcome" where
  "coerce_date_column e =
     with_frame (\<lambda>t s.
       if ''date'' \<in> set (columns t)
       then (Inr (), update_df (t\<lparr>rows := coerce_dates e (rows t)\<rparr>) s)
       else (Inl (KeyError ''date''), s))"

definition drop_missing_dates :: "state \<Rightarrow> unit outcome" where
  "drop_missing_dates =
     with_frame (\<lambda>t s.
       if ''date'' \<in> set (columns t)
       then (let initial_count = length (rows t);
                 t' = t\<lparr>rows := dropna_date (rows t)\<rparr>;
                 s1 = assign_df t' s;
                 dropped_count = initial_count - length (rows t')
             in (Inr (), if dropped_count > 0 then print (Dropped_dates dropped_count) s1 else s1))
       else (Inl (KeyError ''date''), s))"

definition standardize_conditions :: "state \<Rightarrow> unit outcome" where
  "standardize_conditions =
     with_frame (\<lambda>t s.
       if ''weather_condition'' \<in> set (columns t)
       then (Inr (), update_df (t\<lparr>rows := normalize_conditions (rows t)\<rparr>) s)
       else (Inr (), s))"

definition drop_unknown_conditions :: "state \<Rightarrow> unit outcome" where
  "drop_unknown_conditions =
     with_frame (\<lambda>t s.
       if ''weather_condition'' \<in> set (columns t)
       then (let initial_count = length (rows t);
                 t' = t\<lparr>rows := filter_conditions (rows t)\<rparr>;
                 s1 = assign_df t' s;
                 dropped_count = initial_count - length (rows t')
             in (Inr (), if dropped_count > 0 then print (Dropped_conditions dropped_count) s1 else s1))
       else (Inr (), s))"

definition fill_city_median :: "string \<Rightarrow> state \<Rightarrow> unit outcome" where
  "fill_city_median col =
     with_frame (\<lambda>t s.
       if col \<in> set (columns t)
       then (if ''city'' \<notin> set (columns t) then (Inl (KeyError ''city''), s)
             else if group_raises col (rows t) then (Inl TypeError, s)
             else (Inr (), update_df (t\<lparr>rows := group_fill col (rows t)\<rparr>) s))
       else (Inr (), s))"

definition fill_column_median :: "string \<Rightarrow> state \<Rightarrow> unit outcome" where
  "fill_column_median col =
     with_frame (\<lambda>t s.
       if col \<in> set (columns t)
       then (if global_raises col (rows t) then (Inl TypeError, s)
             else (Inr (), update_df (t\<lparr>rows := global_fill col (rows t)\<rparr>) s))
       else (Inr (), s))"

definition numeric_cols :: "string list" where
  "numeric_cols = [''temperature_celsius'', ''humidity_percent'', ''wind_speed_kph'']"

definition clean_data :: "env \<Rightarrow> state \<Rightarrow> unit outcome" where
  "clean_data e =
     run_steps
       ([check_loaded, coerce_date_column e, drop_missing_dates,
         standardize_conditions, drop_unknown_conditions]
        @ map fill_city_median numeric_cols
        @ map fill_column_median numeric_cols)"

section \<open>Transformer\<close>

definition sort_by_date :: "env \<Rightarrow> state \<Rightarrow> unit outcome" where
  "sort_by_date e =
     with_frame (\<lambda>t s.
       if ''date'' \<in> set (columns t)
       then (Inr (), assign_df (t\<lparr>rows := sort_values_date e (rows t)\<rparr>) s)
       else (Inl (KeyError ''date''), s))"

definition extract_date_parts :: "state \<Rightarrow> unit outcome" where
  "extract_date_parts =
     with_frame (\<lambda>t s.
       if ''date'' \<in> set (columns t)
       then (Inr (), update_df \<lparr>columns = add_columns [''year'', ''month'', ''day''] (columns t),
                                rows = date_parts (rows t)\<rparr> s)
       else (Inl (KeyError ''date''), s))"

definition convert_fahrenheit :: "state \<Rightarrow> unit outcome" where
  "convert_fahrenheit =
     with_frame (\<lambda>t s.
       if ''temperature_celsius'' \<in> set (columns t)
       then (if list_ex (\<lambda>r. is_text (temperature_celsius r)) (rows t) then (Inl TypeError, s)
             else (Inr (), update_df \<lparr>columns = add_columns [''temperature_fahrenheit''] (columns t),
                                      rows = add_fahrenheit (rows t)\<rparr> s))
       else (Inr (), s))"

definition transform_data :: "env \<Rightarrow> state \<Rightarrow> unit outcome" where
  "transform_data e =
     run_steps
       [check_loaded, coerce_date_column e, sort_by_date e, extract_date_parts,
        convert_fahrenheit]"

section \<open>Analyzer\<close>

text \<open>The aggregates skip missing values and are NaN when none is left.\<close>

definition mean :: "num_cell list \<Rightarrow> rat option" where
  "mean cs =
     (let vs = notna_values cs
      in if vs = [] then None else Some (sum_list vs / of_nat (length vs)))"

definition minimum :: "num_cell list \<Rightarrow> rat option" where
  "minimum cs = (case notna_values cs of [] \<Rightarrow> None | v # vs \<Rightarrow> Some (fold min vs v))"

definition maximum :: "num_cell list \<Rightarrow> rat option" where
  "maximum cs = (case notna_values cs of [] \<Rightarrow> None | v # vs \<Rightarrow> Some (fold max vs v))"

text \<open>\<^verbatim>\<open>.round(2)\<close>: to two decimals, a tie to the even neighbour.\<close>

definition round_half_even :: "rat \<Rightarrow> int" where
  "round_half_even x =
     (let f = \<lfloor>x\<rfloor>; d = x - of_int f
      in if d < 1 / 2 then f
         else if 1 / 2 < d then f + 1
         else if even f then f else f + 1)"

definition round2 :: "rat \<Rightarrow> rat" where
  "round2 q = of_int (round_half_even (q * 100)) / 100"

text \<open>
  \<^verbatim>\<open>df.groupby("city")\<close>: the group keys are the cities that occur, without the missing
  marker, in ascending order.
\<close>

definition city_keys :: "row list \<Rightarrow> string list" where
  "city_keys rs = sort (remdups (List.map_filter city rs))"

definition city_means :: "row list \<Rightarrow> (string \<times> rat option) list" where
  "city_means rs =
     map (\<lambda>k. (k, mean (group_cells ''temperature_celsius'' k rs))) (city_keys rs)"

text \<open>
  \<^verbatim>\<open>Series.nlargest(n)\<close> with \<^verbatim>\<open>keep='first'\<close>.  When the series has at most \<open>n\<close>
  entries pandas sorts it descending with \<^verbatim>\<open>sort_values\<close> (the default kernel, applied
  to the reversed values and reversed back, NaN last) and takes the head; otherwise it
  selects the \<open>n\<close> largest values with a stable sort, the earlier entry first among
  equal values, and puts the NaN entries behind them.
\<close>

definition has_value :: "(string \<times> rat option) \<Rightarrow> bool" where
  "has_value p = (snd p \<noteq> None)"

definition value_of :: "(string \<times> rat option) \<Rightarrow> rat" where
  "value_of p = (case snd p of None \<Rightarrow> 0 | Some q \<Rightarrow> q)"

definition sort_values_descending :: "env \<Rightarrow> (string \<times> rat option) list \<Rightarrow> (string \<times> rat option) list" where
  "sort_values_descending e ser =
     (let reversed = rev (filter has_value ser);
          nans = filter (\<lambda>p. \<not> has_value p) ser
      in rev (take_rows reversed (quicksort_float e (map value_of reversed))) @ nans)"

definition nlargest :: "env \<Rightarrow> nat \<Rightarrow> (string \<times> rat option) list \<Rightarrow> (string \<times> rat option) list" where
  "nlargest e n ser =
     (if n \<ge> length ser then take n (sort_values_descending e ser)
      else (let dropped = filter has_value ser;
                nan_index = filter (\<lambda>p. \<not> has_value p) ser
            in take n (take (min n (length dropped)) (sort_key (\<lambda>p. - value_of p) dropped)
                       @ nan_index)))"

definition top_cities :: "env \<Rightarrow> row list \<Rightarrow> (string \<times> rat option) list" where
  "top_cities e rs = map (\<lambda>p. (fst p, map_option round2 (snd p))) (nlargest e 5 (city_means rs))"

definition analysis_cols :: "string list" where
  "analysis_cols =
     [''temperature_celsius'', ''humidity_percent'', ''wind_speed_kph'',
      ''temperature_fahrenheit'']"

definition basic_stats :: "env \<Rightarrow> row list \<Rightarrow> (string \<times> rat option list) list" where
  "basic_stats e rs =
     map (\<lambda>col. (col, map (map_option round2) (describe e (map (num_get col) rs)))) analysis_cols"

definition city_stats :: "row list \<Rightarrow> (string \<times> (string \<times> rat option list) list) list" where
  "city_stats rs =
     map (\<lambda>k. (k, map (\<lambda>col. (col, map (map_option round2)
                                      [mean (group_cells col k rs), median (group_cells col k rs),
                                       minimum (group_cells col k rs), maximum (group_cells col k rs)]))
                  analysis_cols))
       (city_keys rs)"

definition weather_freq :: "env \<Rightarrow> row list \<Rightarrow> (string \<times> nat) list" where
  "weather_freq e rs = value_counts e (List.map_filter weather_condition rs)"

text \<open>Every view is a new object of the store.\<close>

definition alloc :: "obj \<Rightarrow> state \<Rightarrow> nat \<times> state" where
  "alloc ob s = (length (heap s), s\<lparr>heap := heap s @ [ob]\<rparr>)"

definition analyze_data :: "env \<Rightarrow> state \<Rightarrow> (string \<times> nat) list outcome" where
  "analyze_data e s =
     (if df s = None then (Inl (ValueError ''Data not loaded. Call load_data() first.''), s)
      else
        (case frame s of
           None \<Rightarrow> (Inl TypeError, s)
         | Some t \<Rightarrow>
             (case filter (\<lambda>col. col \<notin> set (columns t)) analysis_cols of
                col # cols \<Rightarrow> (Inl (KeyError col), s)
              | [] \<Rightarrow>
                  (let (a1, s1) = alloc (View (BasicStats (basic_stats e (rows t)))) s
                   in if ''city'' \<notin> set (columns t) then (Inl (KeyError ''city''), s1)
                      else if list_ex (\<lambda>col. group_raises col (rows t)) analysis_cols
                      then (Inl TypeError, s1)
                      else
                        (let (a2, s2) = alloc (View (CityStats (city_stats (rows t)))) s1
                         in if ''weather_condition'' \<notin> set (columns t)
                            then (Inl (KeyError ''weather_condition''), s2)
                            else
                              (let (a3, s3) = alloc (View (WeatherFreq (weather_freq e (rows t)))) s2;
                                   (a4, s4) = alloc (View (TopCities (top_cities e (rows t)))) s3
                               in (Inr [(''basic_stats'', a1), (''city_stats'', a2),
                                        (''weather_freq'', a3), (''top_cities'', a4)], s4)))))))"

section \<open>Exporter and the entry point\<close>

definition path_join :: "string \<Rightarrow> string \<Rightarrow> string" where
  "path_join dir name = dir @ ''/'' @ name"

definition write_file :: "env \<Rightarrow> string \<Rightarrow> message \<Rightarrow> state \<Rightarrow> unit outcome" where
  "write_file e path msg s =
     (if writable e path then (Inr (), print msg (s\<lparr>written := written s @ [path]\<rparr>))
      else (Inl (OSError path), s))"

definition save_results :: "env \<Rightarrow> (string \<times> nat) list \<Rightarrow> state \<Rightarrow> unit outcome" where
  "save_results e analysis_results s =
     (if df s = None then (Inl (ValueError ''No data to save. Process data first.''), s)
      else
        run_steps
          ([write_file e (path_join (output_dir s) ''transformed_weather_data.csv'')
              (Processed_saved (path_join (output_dir s) ''transformed_weather_data.csv''))]
           @ map (\<lambda>name. write_file e (path_join (output_dir s) (name @ ''.csv''))
                           (Result_saved name (path_join (output_dir s) (name @ ''.csv''))))
               (filter (\<lambda>name. name \<noteq> ''top_cities'') (map fst analysis_results))
           @ [write_file e (path_join (output_dir s) ''top_cities_report.md'')
                (Report_saved (path_join (output_dir s) ''top_cities_report.md'')),
              write_file e (path_join (output_dir s) ''avg_temperature_by_city.png'')
                (Plot_saved (path_join (output_dir s) ''avg_temperature_by_city.png''))])
          s)"

text \<open>The body of the \<^verbatim>\<open>try\<close> block of \<^verbatim>\<open>run_pipeline\<close>.\<close>

definition pipeline_steps :: "env \<Rightarrow> state \<Rightarrow> unit outcome" where
  "pipeline_steps e s =
     (case run_steps [load_data e, clean_data e, transform_data e] s of
        (Inl err, s') \<Rightarrow> (Inl err, s')
      | (Inr u, s3) \<Rightarrow>
          (case analyze_data e s3 of
             (Inl err, s') \<Rightarrow> (Inl err, s')
           | (Inr analysis_results, s4) \<Rightarrow>
               run_steps [save_results e analysis_results, (\<lambda>s. (Inr (), print Completed s))] s4))"

text \<open>\<^verbatim>\<open>run_pipeline\<close>: \<^verbatim>\<open>except Exception\<close> turns every failure of the body into \<^verbatim>\<open>False\<close>.\<close>

definition run_pipeline :: "env \<Rightarrow> state \<Rightarrow> bool outcome" where
  "run_pipeline e s =
     (case pipeline_steps e (print Starting s) of
        (Inl err, s') \<Rightarrow> (Inr False, print (Error_in_pipeline err) s')
      | (Inr u, s') \<Rightarrow> (Inr True, s'))"

section \<open>A sorting kernel\<close>

text \<open>
  What \<^verbatim>\<open>sort_values\<close> needs of a sorting kernel: the positions it returns are a
  permutation of the positions of its keys, in ascending order of the keys.
\<close>

definition argsort_ok :: "('k::linorder) list \<Rightarrow> nat list \<Rightarrow> bool" where
  "argsort_ok ks ps = (sort ps = [0..<length ks] \<and> sorted (map (\<lambda>i. ks ! i) ps))"

text \<open>
  An introsort over an array of positions, as numpy implements \<^verbatim>\<open>kind='quicksort'\<close>:
  a partition of more than 17 positions is split around the median of its first, middle
  and last key, a shorter one is sorted by insertion; the recursion depth is bounded by
  twice the binary logarithm of the number of keys.  (numpy finishes a partition at the
  bound with heapsort; insertion sort stands for it here.)
\<close>

definition swap :: "nat list \<Rightarrow> nat \<Rightarrow> nat \<Rightarrow> nat list" where
  "swap a i j = a[i := a ! j, j := a ! i]"

definition key_at :: "'k list \<Rightarrow> nat list \<Rightarrow> nat \<Rightarrow> 'k" where
  "key_at v a i = v ! (a ! i)"

definition median_of_three :: "('k::linorder) list \<Rightarrow> nat list \<Rightarrow> nat \<Rightarrow> nat \<Rightarrow> nat \<Rightarrow> nat list" where
  "median_of_three v a pl pm pr =
     (let a1 = (if key_at v a pm < key_at v a pl then swap a pm pl else a);
          a2 = (if key_at v a1 pr < key_at v a1 pm then swap a1 pr pm else a1)
      in if key_at v a2 pm < key_at v a2 pl then swap a2 pm pl else a2)"

text \<open>\<^verbatim>\<open>do ++pi; while (v[*pi] < vp);\<close> and \<^verbatim>\<open>do --pj; while (vp < v[*pj]);\<close>\<close>

definition scan_up :: "('k::linorder) list \<Rightarrow> nat list \<Rightarrow> 'k \<Rightarrow> nat \<Rightarrow> nat" where
  "scan_up v a vp i = i + 1 + length (takeWhile (\<lambda>x. v ! x < vp) (drop (i + 1) a))"

definition scan_down :: "('k::linorder) list \<Rightarrow> nat list \<Rightarrow> 'k \<Rightarrow> nat \<Rightarrow> nat" where
  "scan_down v a vp j = j - 1 - length (takeWhile (\<lambda>x. vp < v ! x) (rev (take j a)))"

function partition_loop :: "('k::linorder) list \<Rightarrow> 'k \<Rightarrow> nat list \<Rightarrow> nat \<Rightarrow> nat \<Rightarrow> nat list \<times> nat" where
  "partition_loop v vp a i j =
     (if scan_down v a vp j \<le> scan_up v a vp i then (a, scan_up v a vp i)
      else partition_loop v vp (swap a (scan_up v a vp i) (scan_down v a vp j))
             (scan_up v a vp i) (scan_down v a vp j))"
  by pat_completeness auto
termination
  by (relation "measure (\<lambda>(v, vp, a, i, j). j - i)") (auto simp: scan_up_def scan_down_def)

definition partition_range :: "('k::linorder) list \<Rightarrow> nat list \<Rightarrow> nat \<Rightarrow> nat \<Rightarrow> nat list \<times> nat" where
  "partition_range v a pl pr =
     (let pm = pl + (pr - pl) div 2;
          a1 = median_of_three v a pl pm pr;
          vp = key_at v a1 pm;
          (a2, i) = partition_loop v vp (swap a1 pm (pr - 1)) pl (pr - 1)
      in (swap a2 i (pr - 1), i))"

definition insertion_range :: "('k::linorder) list \<Rightarrow> nat list \<Rightarrow> nat \<Rightarrow> nat \<Rightarrow> nat list" where
  "insertion_range v a pl pr =
     (if pl < pr
      then take pl a @ sort_key (\<lambda>i. v ! i) (take (pr + 1 - pl) (drop pl a)) @ drop (pr + 1) a
      else a)"

fun introsort_range :: "nat \<Rightarrow> ('k::linorder) list \<Rightarrow> nat list \<Rightarrow> nat \<Rightarrow> nat \<Rightarrow> nat list" where
  "introsort_range 0 v a pl pr = insertion_range v a pl pr"
| "introsort_range (Suc depth) v a pl pr =
     (if 16 < pr - pl
      then (let (a1, i) = partition_range v a pl pr
            in introsort_range depth v (introsort_range depth v a1 pl (i - 1)) (i + 1) pr)
      else insertion_range v a pl pr)"

fun msb :: "nat \<Rightarrow> nat" where
  "msb n = (if n < 2 then 0 else Suc (msb (n div 2)))"

definition introsort :: "('k::linorder) list \<Rightarrow> nat list" where
  "introsort v = introsort_range (2 * msb (length v)) v [0..<length v] 0 (length v - 1)"

text \<open>
  A kernel is stable on its keys when it returns the positions in ascending order of the
  keys and the positions of equal keys in ascending order: the permutation of the stable
  insertion sort.
\<close>

definition stable_argsort :: "('k::linorder) list \<Rightarrow> nat list \<Rightarrow> bool" where
  "stable_argsort ks ps = (ps = sort_key (\<lambda>i. ks ! i) [0..<length ks])"

section \<open>Sample runs\<close>

text \<open>
  A concrete library and file system: the parsers know the fields of the sample files,
  both sorting kernels are the introsort above, the directory \<^verbatim>\<open>outputs\<close> is writable.
\<close>

definition sample_header :: "string list" where
  "sample_header =
     [''date'', ''city'', ''temperature_celsius'', ''humidity_percent'', ''wind_speed_kph'',
      ''weather_condition'']"

definition sample_files :: "string \<Rightarrow> source" where
  "sample_files path =
     (if path = ''weather.csv'' then
        Csv sample_header
          [[''2023-01-02'', ''CityA'', '''', ''65'', ''12'', ''cloudy''],
           [''2023-01-01'', ''CityA'', ''25.0'', ''60'', ''10'', ''Sunny ''],
           [''invalid_date'', ''CityA'', ''15'', ''80'', ''20'', ''unknown''],
           [''2023-01-03'', ''CityB'', ''30'', ''NA'', ''5'', ''unknown'']]
      else if path = ''no_temperature.csv'' then
        Csv sample_header [[''2023-01-01'', ''CityA'', '''', ''60'', ''10'', ''sunny'']]
      else if path = ''text.csv'' then
        Csv sample_header [[''2023-01-01'', ''CityA'', ''hot'', ''60'', ''10'', ''sunny'']]
      else if path = ''no_city.csv'' then
        Csv [''date'', ''temperature_celsius'', ''humidity_percent'', ''wind_speed_kph'',
             ''weather_condition'']
          [[''2023-01-01'', ''25.0'', ''60'', ''10'', ''sunny'']]
      else if path = ''same_day.csv'' then
        Csv sample_header
          (map (\<lambda>c. [''2023-01-01'', c, ''20'', ''60'', ''10'', ''sunny''])
             [''c01'', ''c02'', ''c03'', ''c04'', ''c05'', ''c06'', ''c07'', ''c08'', ''c09'',
              ''c10'', ''c11'', ''c12'', ''c13'', ''c14'', ''c15'', ''c16'', ''c17'', ''c18''])
      else if path = ''cities.csv'' then
        Csv sample_header
          [[''2023-01-01'', ''Oslo'', ''5'', ''60'', ''10'', ''sunny''],
           [''2023-01-01'', ''Cairo'', ''30'', ''60'', ''10'', ''sunny''],
           [''2023-01-02'', ''Lima'', ''20'', ''60'', ''10'', ''sunny''],
           [''2023-01-02'', ''Rome'', ''20'', ''60'', ''10'', ''sunny''],
           [''2023-01-03'', ''Bern'', ''20'', ''60'', ''10'', ''sunny''],
           [''2023-01-03'', ''Kyiv'', ''20'', ''60'', ''10'', ''sunny''],
           [''2023-01-04'', ''Faro'', ''20'', ''60'', ''10'', ''sunny''],
           [''2023-01-04'', ''Cairo'', ''25.0'', ''60'', ''10'', ''sunny'']]
      else if path = ''ties.csv'' then
        Csv sample_header
          [[''2023-01-01'', ''Kyiv'', ''20'', ''60'', ''10'', ''sunny''],
           [''2023-01-02'', ''Faro'', ''20'', ''60'', ''10'', ''sunny''],
           [''2023-01-03'', ''Cairo'', ''30'', ''60'', ''10'', ''sunny''],
           [''2023-01-04'', ''Bern'', ''20'', ''60'', ''10'', ''sunny'']]
      else if path = ''garbled.csv'' then Malformed ''Error tokenizing data''
      else Unreadable ''No such file or directory'')"

definition sample_env :: env where
  "sample_env =
     \<lparr>files = sample_files,
      writable = (\<lambda>path. take 8 path = ''outputs/''),
      default_na = [''#N/A'', ''NULL'', ''nan'', ''null'', ''n/a'', ''<NA>''],
      parse_number =
        map_of [(''5'', 5), (''10'', 10), (''12'', 12), (''15'', 15), (''20'', 20), (''25.0'', 25),
                (''30'', 30), (''60'', 60), (''65'', 65), (''80'', 80)],
      parse_date_dayfirst =
        map_of [(''2023-01-01'', (2023, 1, 1, 0)), (''2023-01-02'', (2023, 1, 2, 0)),
                (''2023-01-03'', (2023, 1, 3, 0)), (''2023-01-04'', (2023, 1, 4, 0))],
      to_datetime =
        map_of [(''2023-01-01'', (2023, 1, 1, 0)), (''2023-01-02'', (2023, 1, 2, 0)),
                (''2023-01-03'', (2023, 1, 3, 0)), (''2023-01-04'', (2023, 1, 4, 0))],
      quicksort_datetime = introsort,
      quicksort_float = introsort,
      describe = (\<lambda>cs. [Some (of_nat (length (notna_values cs))), mean cs, None,
                         minimum cs, None, median cs, None, maximum cs]),
      value_counts = (\<lambda>xs. sort_key (\<lambda>p. - int (snd p)) (map (\<lambda>x. (x, count_list xs x)) (remdups xs)))\<rparr>"

text \<open>\<^verbatim>\<open>WeatherDataPipeline(path, "outputs")\<close>: nothing is loaded yet.\<close>

definition new_pipeline :: "string \<Rightarrow> state" where
  "new_pipeline path =
     \<lparr>input_file = path, output_dir = ''outputs'', df = None, heap = [], stdout = [], written = []\<rparr>"

definition loaded :: "string \<Rightarrow> state" where
  "loaded path = snd (load_data sample_env (new_pipeline path))"

definition cleaned :: "string \<Rightarrow> state" where
  "cleaned path = snd (clean_data sample_env (loaded path))"

definition transformed :: "string \<Rightarrow> state" where
  "transformed path = snd (transform_data sample_env (cleaned path))"

section \<open>The stages as functions of the rows\<close>

text \<open>
  The rows \<^verbatim>\<open>clean_data\<close> holds when the imputation starts (dates coerced, rows without
  a date dropped, conditions normalised, sentinel conditions dropped), the two imputation
  passes over them, and the rows \<^verbatim>\<open>transform_data\<close> builds.
\<close>

definition pre_impute :: "env \<Rightarrow> row list \<Rightarrow> row list" where
  "pre_impute e rs = filter_conditions (normalize_conditions (dropna_date (coerce_dates e rs)))"

definition impute :: "row list \<Rightarrow> row list" where
  "impute rs = fold global_fill numeric_cols (fold group_fill numeric_cols rs)"

definition transformed_rows :: "env \<Rightarrow> row list \<Rightarrow> row list" where
  "transformed_rows e rs = add_fahrenheit (date_parts (sort_values_date e (coerce_dates e rs)))"

text \<open>
  The median of a column within the city group of a row, and over the whole column:
  the two statistics the imputation is specified by.
\<close>

definition city_median :: "string \<Rightarrow> row list \<Rightarrow> row \<Rightarrow> rat option" where
  "city_median col rs r =
     (case city r of None \<Rightarrow> None | Some k \<Rightarrow> median (group_cells col k rs))"

definition column_median :: "string \<Rightarrow> row list \<Rightarrow> rat option" where
  "column_median col rs = median (map (num_get col) rs)"

section \<open>Notions for the ranking\<close>

text \<open>
  \<open>ranks_above a b\<close>: in a descending order that puts NaN last, the value \<open>a\<close> may
  stand before the value \<open>b\<close>.  \<open>before xs x y\<close>: \<open>x\<close> occurs in the list \<open>xs\<close> and
  \<open>y\<close> occurs later.
\<close>

definition ranks_above :: "rat option \<Rightarrow> rat option \<Rightarrow> bool" where
  "ranks_above a b =
     (case b of None \<Rightarrow> True | Some y \<Rightarrow> (case a of None \<Rightarrow> False | Some x \<Rightarrow> y \<le> x))"



section \<open>Properties of the store\<close>

lemma frame_assign_df: "frame (assign_df t s) = Some t"
  by (simp add: frame_def assign_df_def)

lemma frame_update_df: "frame s = Some t0 \<Longrightarrow> frame (update_df t s) = Some t"
  by (auto simp: frame_def update_df_def split: option.splits if_splits)

lemma frame_print: "frame (print m s) = frame s"
  by (simp add: frame_def print_def split: option.splits)

lemma frame_Some_df: "frame s = Some t \<Longrightarrow> df s \<noteq> None"
  by (auto simp: frame_def split: option.splits)

lemma run_steps_ok: "f s = (Inr (), s') \<Longrightarrow> run_steps (f # fs) s = run_steps fs s'"
  by simp

lemma run_steps_raise: "f s = (Inl err, s') \<Longrightarrow> run_steps (f # fs) s = (Inl err, s')"
  by simp

section \<open>Loader\<close>

lemma missing_cols_empty:
  "filter (\<lambda>col. col \<notin> set header) required_columns = [] \<longleftrightarrow> set required_columns \<subseteq> set header"
  by (auto simp: filter_empty_conv)

lemma required_date: "''date'' \<in> set required_columns"
  by (simp add: required_columns_def)

text \<open>
  C7, as amended.  \<^verbatim>\<open>load_data\<close> raises the operating system's error when the source
  cannot be read; it raises a ValueError exactly when the source is a CSV file that lacks
  a required column, and succeeds exactly when it has them all.  A failure of the reader
  (no file, no CSV, no \<^verbatim>\<open>date\<close> column) leaves \<^verbatim>\<open>self.df\<close> and the store as they were;
  when \<^verbatim>\<open>date\<close> is there the table read from the file is bound to \<^verbatim>\<open>self.df\<close>, also
  when another required column is missing and the call fails.
\<close>

theorem load_data_outcomes:
  "(files e (input_file s) = Unreadable msg \<longrightarrow>
      load_data e s = (Inl (OSError msg), print (Error_loading (OSError msg)) s))
   \<and> ((\<exists>m. fst (load_data e s) = Inl (ValueError m)) \<longleftrightarrow>
        (\<exists>header records. files e (input_file s) = Csv header records
           \<and> \<not> set required_columns \<subseteq> set header))
   \<and> (fst (load_data e s) = Inr () \<longleftrightarrow>
        (\<exists>header records. files e (input_file s) = Csv header records
           \<and> set required_columns \<subseteq> set header))
   \<and> (files e (input_file s) = Csv header records \<longrightarrow>
        (if ''date'' \<in> set header
         then frame (snd (load_data e s))
              = Some \<lparr>columns = header, rows = map (read_row e header records) records\<rparr>
         else df (snd (load_data e s)) = df s \<and> heap (snd (load_data e s)) = heap s))
   \<and> ((\<forall>header records. files e (input_file s) \<noteq> Csv header records) \<longrightarrow>
        df (snd (load_data e s)) = df s \<and> heap (snd (load_data e s)) = heap s)"
proof (cases "files e (input_file s)")
  case (Unreadable m)
  then show ?thesis by (simp add: load_data_def read_csv_def print_def)
next
  case (Malformed m)
  then show ?thesis by (simp add: load_data_def read_csv_def print_def)
next
  case (Csv h rs)
  show ?thesis
  proof (cases "''date'' \<in> set h")
    case True
    then show ?thesis using Csv
      by (auto simp: load_data_def read_csv_def Let_def missing_cols_empty frame_assign_df frame_print)
  next
    case False
    then have "\<not> set required_columns \<subseteq> set h" using required_date by blast
    then show ?thesis using Csv False
      by (auto simp: load_data_def read_csv_def print_def)
  qed
qed

theorem load_data_outcomes_witness:
  "files sample_env (input_file (new_pipeline ''weather.csv''))
     = Csv sample_header
         [[''2023-01-02'', ''CityA'', '''', ''65'', ''12'', ''cloudy''],
          [''2023-01-01'', ''CityA'', ''25.0'', ''60'', ''10'', ''Sunny ''],
          [''invalid_date'', ''CityA'', ''15'', ''80'', ''20'', ''unknown''],
          [''2023-01-03'', ''CityB'', ''30'', ''NA'', ''5'', ''unknown'']]
   \<and> set required_columns \<subseteq> set sample_header
   \<and> fst (load_data sample_env (new_pipeline ''weather.csv'')) = Inr ()
   \<and> map_option columns (frame (loaded ''weather.csv'')) = Some sample_header
   \<and> files sample_env (input_file (new_pipeline ''missing.csv''))
     = Unreadable ''No such file or directory''
   \<and> fst (load_data sample_env (new_pipeline ''missing.csv''))
     = Inl (OSError ''No such file or directory'')
   \<and> df (snd (load_data sample_env (new_pipeline ''missing.csv''))) = None"
proof -
  let ?s = "new_pipeline ''weather.csv''"
  let ?u = "new_pipeline ''missing.csv''"
  let ?recs = "[[''2023-01-02'', ''CityA'', '''', ''65'', ''12'', ''cloudy''],
          [''2023-01-01'', ''CityA'', ''25.0'', ''60'', ''10'', ''Sunny ''],
          [''invalid_date'', ''CityA'', ''15'', ''80'', ''20'', ''unknown''],
          [''2023-01-03'', ''CityB'', ''30'', ''NA'', ''5'', ''unknown'']]"
  have f: "files sample_env (input_file ?s) = Csv sample_header ?recs"
    by (simp add: sample_env_def sample_files_def new_pipeline_def)
  have r: "set required_columns \<subseteq> set sample_header"
    by (simp add: required_columns_def sample_header_def)
  have d: "''date'' \<in> set sample_header"
    by (simp add: sample_header_def)
  have u: "files sample_env (input_file ?u) = Unreadable ''No such file or directory''"
    by (simp add: sample_env_def sample_files_def new_pipeline_def)
  have n: "df ?u = None"
    by (simp add: new_pipeline_def)
  note a = load_data_outcomes [of sample_env ?s _ sample_header ?recs]
  note b = load_data_outcomes [of sample_env ?u "''No such file or directory''"]
  from a f r have 1: "fst (load_data sample_env ?s) = Inr ()" by blast
  from a f d have 2: "map_option columns (frame (loaded ''weather.csv'')) = Some sample_header"
    by (simp add: loaded_def)
  from b u have 3: "load_data sample_env ?u
      = (Inl (OSError ''No such file or directory''),
         print (Error_loading (OSError ''No such file or directory'')) ?u)"
    by blast
  from 3 n have 4: "df (snd (load_data sample_env ?u)) = None"
    by (simp add: print_def)
  from f r 1 2 u 3 4 show ?thesis by simp
qed

theorem load_data_partial_table_counterexample:
  "fst (load_data sample_env (new_pipeline ''no_city.csv''))
     = Inl (ValueError ''Missing required columns: city'')
   \<and> df (new_pipeline ''no_city.csv'') = None
   \<and> df (snd (load_data sample_env (new_pipeline ''no_city.csv''))) = Some 0
   \<and> map_option columns (frame (snd (load_data sample_env (new_pipeline ''no_city.csv''))))
     = Some [''date'', ''temperature_celsius'', ''humidity_percent'', ''wind_speed_kph'',
             ''weather_condition'']"
  by code_simp

section \<open>Cells of a row\<close>

lemma num_get_num_set:
  "num_get c (num_set c' v r) = (if c = c' \<and> c \<in> set analysis_cols then v else num_get c r)"
  by (simp add: num_get_def num_set_def analysis_cols_def)

lemma num_set_labels [simp]:
  "date (num_set c v r) = date r"
  "city (num_set c v r) = city r"
  "weather_condition (num_set c v r) = weather_condition r"
  "extra (num_set c v r) = extra r"
  by (simp_all add: num_set_def)

lemma num_get_unknown: "c \<notin> set analysis_cols \<Longrightarrow> num_get c r = NaN"
  by (simp add: num_get_def analysis_cols_def)

lemma numeric_cols_analysis: "c \<in> set numeric_cols \<Longrightarrow> c \<in> set analysis_cols"
  by (auto simp: numeric_cols_def analysis_cols_def)

lemma fillna_not_text: "\<not> is_text c \<Longrightarrow> \<not> is_text (fillna m c)"
  by (cases c; cases m) (simp_all add: fillna_def is_text_def)

lemma fillna_NaN: "fillna m NaN = (case m of None \<Rightarrow> NaN | Some q \<Rightarrow> Number q)"
  by (simp add: fillna_def)

lemma fillna_Number: "fillna m (Number q) = Number q"
  by (simp add: fillna_def)

lemma fillna_id: "c \<noteq> NaN \<Longrightarrow> fillna m c = c"
  by (cases c) (simp_all add: fillna_def)

section \<open>The imputation passes, column by column\<close>

lemma length_group_fill [simp]: "length (group_fill c rs) = length rs"
  by (simp add: group_fill_def)

lemma length_global_fill [simp]: "length (global_fill c rs) = length rs"
  by (simp add: global_fill_def)

lemma global_fill_map:
  "global_fill c rs = map (\<lambda>r. num_set c (fillna (column_median c rs) (num_get c r)) r) rs"
proof (cases "list_ex (\<lambda>r. isna (num_get c r)) rs")
  case True
  then show ?thesis by (simp add: global_fill_def column_median_def)
next
  case False
  then have "\<And>r. r \<in> set rs \<Longrightarrow> num_get c r \<noteq> NaN"
    by (auto simp: list_ex_iff isna_def)
  then have "\<And>r. r \<in> set rs \<Longrightarrow>
      num_set c (fillna (column_median c rs) (num_get c r)) r = r"
    by (simp add: fillna_id num_set_def num_get_def)
  then have "map (\<lambda>r. num_set c (fillna (column_median c rs) (num_get c r)) r) rs = rs"
    by (simp add: map_idI)
  with False show ?thesis by (simp add: global_fill_def)
qed

text \<open>A pass over one column reads the cities and that column only.\<close>

lemma group_cells_view:
  "group_cells c k rs
   = map snd (filter (\<lambda>p. fst p = Some k) (map (\<lambda>r. (city r, num_get c r)) rs))"
  by (simp add: group_cells_def filter_map o_def)

lemma group_cells_cong:
  "map (\<lambda>r. (city r, num_get c r)) rs = map (\<lambda>r. (city r, num_get c r)) rs'
   \<Longrightarrow> group_cells c k rs = group_cells c k rs'"
  by (simp add: group_cells_view)

lemma view_group_fill_other:
  "c \<noteq> c' \<Longrightarrow>
   map (\<lambda>r. (city r, num_get c r)) (group_fill c' rs) = map (\<lambda>r. (city r, num_get c r)) rs"
  by (simp add: group_fill_def num_get_num_set o_def)

lemma view_global_fill_other:
  "c \<noteq> c' \<Longrightarrow>
   map (\<lambda>r. (city r, num_get c r)) (global_fill c' rs) = map (\<lambda>r. (city r, num_get c r)) rs"
  by (simp add: global_fill_map num_get_num_set o_def)

lemma column_median_cong:
  "map (\<lambda>r. (city r, num_get c r)) rs = map (\<lambda>r. (city r, num_get c r)) rs'
   \<Longrightarrow> column_median c rs = column_median c rs'"
proof -
  assume "map (\<lambda>r. (city r, num_get c r)) rs = map (\<lambda>r. (city r, num_get c r)) rs'"
  then have "map snd (map (\<lambda>r. (city r, num_get c r)) rs)
             = map snd (map (\<lambda>r. (city r, num_get c r)) rs')"
    by simp
  then have "map (num_get c) rs = map (num_get c) rs'"
    by (simp add: o_def)
  then show ?thesis by (simp add: column_median_def)
qed

lemma view_nth:
  "map (\<lambda>r. (city r, num_get c r)) rs = map (\<lambda>r. (city r, num_get c r)) rs'
   \<Longrightarrow> i < length rs \<Longrightarrow> city (rs ! i) = city (rs' ! i) \<and> num_get c (rs ! i) = num_get c (rs' ! i)"
proof -
  assume a: "map (\<lambda>r. (city r, num_get c r)) rs = map (\<lambda>r. (city r, num_get c r)) rs'"
    and i: "i < length rs"
  from a have l: "length rs = length rs'" by (rule map_eq_imp_length_eq)
  from a have "map (\<lambda>r. (city r, num_get c r)) rs ! i = map (\<lambda>r. (city r, num_get c r)) rs' ! i"
    by simp
  with i l show ?thesis by simp
qed

lemma view_group_fill_cong:
  assumes "map (\<lambda>r. (city r, num_get c r)) rs = map (\<lambda>r. (city r, num_get c r)) rs'"
  shows "map (\<lambda>r. (city r, num_get c r)) (group_fill c rs)
         = map (\<lambda>r. (city r, num_get c r)) (group_fill c rs')"
proof (rule nth_equalityI)
  from assms have l: "length rs = length rs'" by (rule map_eq_imp_length_eq)
  then show "length (map (\<lambda>r. (city r, num_get c r)) (group_fill c rs))
           = length (map (\<lambda>r. (city r, num_get c r)) (group_fill c rs'))"
    by simp
  fix i assume "i < length (map (\<lambda>r. (city r, num_get c r)) (group_fill c rs))"
  then have i: "i < length rs" by simp
  from view_nth [OF assms i] group_cells_cong [OF assms]
  show "map (\<lambda>r. (city r, num_get c r)) (group_fill c rs) ! i
      = map (\<lambda>r. (city r, num_get c r)) (group_fill c rs') ! i"
    using i l by (auto simp: group_fill_def num_get_num_set group_fill_cell_def split: option.splits)
qed

lemma view_global_fill_cong:
  assumes "map (\<lambda>r. (city r, num_get c r)) rs = map (\<lambda>r. (city r, num_get c r)) rs'"
  shows "map (\<lambda>r. (city r, num_get c r)) (global_fill c rs)
         = map (\<lambda>r. (city r, num_get c r)) (global_fill c rs')"
proof (rule nth_equalityI)
  from assms have l: "length rs = length rs'" by (rule map_eq_imp_length_eq)
  then show "length (map (\<lambda>r. (city r, num_get c r)) (global_fill c rs))
           = length (map (\<lambda>r. (city r, num_get c r)) (global_fill c rs'))"
    by simp
  fix i assume "i < length (map (\<lambda>r. (city r, num_get c r)) (global_fill c rs))"
  then have i: "i < length rs" by simp
  from view_nth [OF assms i] column_median_cong [OF assms]
  show "map (\<lambda>r. (city r, num_get c r)) (global_fill c rs) ! i
      = map (\<lambda>r. (city r, num_get c r)) (global_fill c rs') ! i"
    using i l by (simp add: global_fill_map num_get_num_set)
qed

text \<open>Hence the six passes leave in a column what its own two passes compute.\<close>

lemma view_impute:
  assumes "c \<in> set numeric_cols"
  shows "map (\<lambda>r. (city r, num_get c r)) (impute rs)
         = map (\<lambda>r. (city r, num_get c r)) (global_fill c (group_fill c rs))"
proof -
  let ?v = "\<lambda>rs. map (\<lambda>r. (city r, num_get c r)) rs"
  let ?T = "''temperature_celsius''" and ?H = "''humidity_percent''" and ?W = "''wind_speed_kph''"
  have imp: "impute rs = global_fill ?W (global_fill ?H (global_fill ?T
               (group_fill ?W (group_fill ?H (group_fill ?T rs)))))"
    by (simp add: impute_def numeric_cols_def)
  from assms consider "c = ?T" | "c = ?H" | "c = ?W"
    by (auto simp: numeric_cols_def)
  then show ?thesis
  proof cases
    case 1
    have "?v (group_fill ?W (group_fill ?H (group_fill c rs))) = ?v (group_fill c rs)"
      using 1 by (simp add: view_group_fill_other)
    then have "?v (global_fill c (group_fill ?W (group_fill ?H (group_fill c rs))))
             = ?v (global_fill c (group_fill c rs))"
      by (rule view_global_fill_cong)
    then show ?thesis unfolding imp using 1 by (simp add: view_global_fill_other)
  next
    case 2
    have "?v (group_fill c (group_fill ?T rs)) = ?v (group_fill c rs)"
      using 2 by (intro view_group_fill_cong) (simp add: view_group_fill_other)
    then have "?v (global_fill ?T (group_fill ?W (group_fill c (group_fill ?T rs))))
             = ?v (group_fill c rs)"
      using 2 by (simp add: view_global_fill_other view_group_fill_other)
    then have "?v (global_fill c (global_fill ?T (group_fill ?W (group_fill c (group_fill ?T rs)))))
             = ?v (global_fill c (group_fill c rs))"
      by (rule view_global_fill_cong)
    then show ?thesis unfolding imp using 2 by (simp add: view_global_fill_other)
  next
    case 3
    have "?v (group_fill c (group_fill ?H (group_fill ?T rs))) = ?v (group_fill c rs)"
      using 3 by (intro view_group_fill_cong) (simp add: view_group_fill_other)
    then have "?v (global_fill ?H (global_fill ?T (group_fill c (group_fill ?H (group_fill ?T rs)))))
             = ?v (group_fill c rs)"
      using 3 by (simp add: view_global_fill_other)
    then have "?v (global_fill c (global_fill ?H (global_fill ?T
                 (group_fill c (group_fill ?H (group_fill ?T rs))))))
             = ?v (global_fill c (group_fill c rs))"
      by (rule view_global_fill_cong)
    then show ?thesis unfolding imp using 3 by simp
  qed
qed

lemma length_impute [simp]: "length (impute rs) = length rs"
  by (simp add: impute_def numeric_cols_def)

lemma impute_cell:
  assumes "c \<in> set numeric_cols" "i < length rs"
  shows "num_get c (impute rs ! i)
         = fillna (column_median c (group_fill c rs)) (group_fill_cell c rs (rs ! i))"
    and "city (impute rs ! i) = city (rs ! i)"
proof -
  have i': "i < length (impute rs)" using assms(2) by simp
  from view_nth [OF view_impute [OF assms(1)] i']
  have "city (impute rs ! i) = city (global_fill c (group_fill c rs) ! i)"
    and "num_get c (impute rs ! i) = num_get c (global_fill c (group_fill c rs) ! i)"
    by simp_all
  then show "num_get c (impute rs ! i)
         = fillna (column_median c (group_fill c rs)) (group_fill_cell c rs (rs ! i))"
    and "city (impute rs ! i) = city (rs ! i)"
    using assms numeric_cols_analysis [OF assms(1)]
    by (simp_all add: global_fill_map group_fill_def num_get_num_set)
qed


section \<open>Cleaner\<close>

lemma with_frame_Some: "frame s = Some t \<Longrightarrow> with_frame f s = f t s"
  by (simp add: with_frame_def)

lemma check_loaded_run: "frame s = Some t \<Longrightarrow> check_loaded s = (Inr (), s)"
  by (auto simp: check_loaded_def dest: frame_Some_df)

lemma coerce_date_column_run:
  "frame s = Some t \<Longrightarrow> ''date'' \<in> set (columns t) \<Longrightarrow>
   \<exists>s'. coerce_date_column e s = (Inr (), s')
        \<and> frame s' = Some (t\<lparr>rows := coerce_dates e (rows t)\<rparr>)"
  by (simp add: coerce_date_column_def with_frame_Some frame_update_df)

lemma drop_missing_dates_run:
  "frame s = Some t \<Longrightarrow> ''date'' \<in> set (columns t) \<Longrightarrow>
   \<exists>s'. drop_missing_dates s = (Inr (), s')
        \<and> frame s' = Some (t\<lparr>rows := dropna_date (rows t)\<rparr>)"
  by (simp add: drop_missing_dates_def with_frame_Some frame_assign_df frame_print Let_def)

lemma standardize_conditions_run:
  "frame s = Some t \<Longrightarrow> ''weather_condition'' \<in> set (columns t) \<Longrightarrow>
   \<exists>s'. standardize_conditions s = (Inr (), s')
        \<and> frame s' = Some (t\<lparr>rows := normalize_conditions (rows t)\<rparr>)"
  by (simp add: standardize_conditions_def with_frame_Some frame_update_df)

lemma drop_unknown_conditions_run:
  "frame s = Some t \<Longrightarrow> ''weather_condition'' \<in> set (columns t) \<Longrightarrow>
   \<exists>s'. drop_unknown_conditions s = (Inr (), s')
        \<and> frame s' = Some (t\<lparr>rows := filter_conditions (rows t)\<rparr>)"
  by (simp add: drop_unknown_conditions_def with_frame_Some frame_assign_df frame_print Let_def)

lemma fill_city_median_run:
  "frame s = Some t \<Longrightarrow> c \<in> set (columns t) \<Longrightarrow> ''city'' \<in> set (columns t) \<Longrightarrow>
   \<not> group_raises c (rows t) \<Longrightarrow>
   \<exists>s'. fill_city_median c s = (Inr (), s')
        \<and> frame s' = Some (t\<lparr>rows := group_fill c (rows t)\<rparr>)"
  by (simp add: fill_city_median_def with_frame_Some frame_update_df)

lemma fill_city_median_raise:
  "frame s = Some t \<Longrightarrow> c \<in> set (columns t) \<Longrightarrow> ''city'' \<in> set (columns t) \<Longrightarrow>
   group_raises c (rows t) \<Longrightarrow> fill_city_median c s = (Inl TypeError, s)"
  by (simp add: fill_city_median_def with_frame_Some)

lemma fill_column_median_run:
  "frame s = Some t \<Longrightarrow> c \<in> set (columns t) \<Longrightarrow> \<not> global_raises c (rows t) \<Longrightarrow>
   \<exists>s'. fill_column_median c s = (Inr (), s')
        \<and> frame s' = Some (t\<lparr>rows := global_fill c (rows t)\<rparr>)"
  by (simp add: fill_column_median_def with_frame_Some frame_update_df)

text \<open>The first five statements of \<^verbatim>\<open>clean_data\<close> on a table that has the required columns.\<close>

lemma clean_data_prefix:
  assumes "frame s = Some t" "set required_columns \<subseteq> set (columns t)"
  shows "\<exists>s'. run_steps [check_loaded, coerce_date_column e, drop_missing_dates,
                        standardize_conditions, drop_unknown_conditions] s = (Inr (), s')
             \<and> frame s' = Some (t\<lparr>rows := pre_impute e (rows t)\<rparr>)"
proof -
  from assms(2) have d: "''date'' \<in> set (columns t)"
    and w: "''weather_condition'' \<in> set (columns t)"
    by (auto simp: required_columns_def)
  from coerce_date_column_run [OF assms(1) d] obtain s1
    where 1: "coerce_date_column e s = (Inr (), s1)"
      and f1: "frame s1 = Some (t\<lparr>rows := coerce_dates e (rows t)\<rparr>)"
    by blast
  from drop_missing_dates_run [OF f1] d obtain s2
    where 2: "drop_missing_dates s1 = (Inr (), s2)"
      and f2: "frame s2 = Some (t\<lparr>rows := dropna_date (coerce_dates e (rows t))\<rparr>)"
    by auto
  from standardize_conditions_run [OF f2] w obtain s3
    where 3: "standardize_conditions s2 = (Inr (), s3)"
      and f3: "frame s3
        = Some (t\<lparr>rows := normalize_conditions (dropna_date (coerce_dates e (rows t)))\<rparr>)"
    by auto
  from drop_unknown_conditions_run [OF f3] w obtain s4
    where 4: "drop_unknown_conditions s3 = (Inr (), s4)"
      and f4: "frame s4 = Some (t\<lparr>rows := pre_impute e (rows t)\<rparr>)"
    by (auto simp: pre_impute_def)
  from check_loaded_run [OF assms(1)] 1 2 3 4 f4 show ?thesis by simp
qed

lemma run_steps_append:
  "run_steps fs s = (Inr (), s') \<Longrightarrow> run_steps (fs @ gs) s = run_steps gs s'"
proof (induction fs arbitrary: s)
  case Nil
  then show ?case by simp
next
  case (Cons f fs)
  then show ?case by (auto split: prod.splits sum.splits)
qed

lemma run_steps_append_raise:
  "run_steps fs s = (Inl err, s') \<Longrightarrow> run_steps (fs @ gs) s = (Inl err, s')"
proof (induction fs arbitrary: s)
  case Nil
  then show ?case by simp
next
  case (Cons f fs)
  then show ?case by (auto split: prod.splits sum.splits)
qed

text \<open>Text in a column: where the medians raise.\<close>

lemma group_raises_view:
  "group_raises c rs
   = list_ex (\<lambda>p. fst p \<noteq> None \<and> is_text (snd p)) (map (\<lambda>r. (city r, num_get c r)) rs)"
  by (simp add: group_raises_def list_ex_iff)

lemma has_text_view:
  "list_ex (\<lambda>r. is_text (num_get c r)) rs
   = list_ex (\<lambda>p. is_text (snd p)) (map (\<lambda>r. (city r, num_get c r)) rs)"
  by (simp add: list_ex_iff)

lemma group_raises_group_fill_other:
  assumes "c \<noteq> c'"
  shows "group_raises c (group_fill c' rs) = group_raises c rs"
  unfolding group_raises_view view_group_fill_other [OF assms] by (rule refl)

lemma no_text_group_fill:
  "\<not> group_raises c rs \<Longrightarrow> \<not> list_ex (\<lambda>r. is_text (num_get c r)) (group_fill c rs)"
proof -
  assume a: "\<not> group_raises c rs"
  have "\<not> is_text (num_get c (num_set c (group_fill_cell c rs r) r))" if "r \<in> set rs" for r
  proof (cases "city r")
    case None
    then show ?thesis
      by (cases "c \<in> set analysis_cols")
        (simp_all add: num_get_num_set group_fill_cell_def is_text_def num_get_unknown)
  next
    case (Some k)
    with a that have "\<not> is_text (num_get c r)"
      by (auto simp: group_raises_def list_ex_iff)
    then have "\<not> is_text (fillna (median (group_cells c k rs)) (num_get c r))"
      by (rule fillna_not_text)
    with Some \<open>\<not> is_text (num_get c r)\<close> show ?thesis
      by (simp add: num_get_num_set group_fill_cell_def)
  qed
  then show ?thesis by (auto simp: list_ex_iff group_fill_def)
qed

lemma no_text_global_fill:
  "\<not> list_ex (\<lambda>r. is_text (num_get c r)) rs
   \<Longrightarrow> \<not> list_ex (\<lambda>r. is_text (num_get c r)) (global_fill c rs)"
  by (auto simp: global_fill_map list_ex_iff num_get_num_set fillna_not_text)

lemma has_text_group_fill_other:
  assumes "c \<noteq> c'"
  shows "list_ex (\<lambda>r. is_text (num_get c r)) (group_fill c' rs)
         = list_ex (\<lambda>r. is_text (num_get c r)) rs"
  unfolding has_text_view view_group_fill_other [OF assms] by (rule refl)

lemma has_text_global_fill_other:
  assumes "c \<noteq> c'"
  shows "list_ex (\<lambda>r. is_text (num_get c r)) (global_fill c' rs)
         = list_ex (\<lambda>r. is_text (num_get c r)) rs"
  unfolding has_text_view view_global_fill_other [OF assms] by (rule refl)

lemma global_raises_text: "global_raises c rs \<Longrightarrow> list_ex (\<lambda>r. is_text (num_get c r)) rs"
  by (simp add: global_raises_def)


text \<open>The six imputation statements on a table that has the numeric columns and the cities.\<close>

lemma clean_data_fills:
  assumes f: "frame s = Some t"
    and cols: "set numeric_cols \<subseteq> set (columns t)" "''city'' \<in> set (columns t)"
    and ok: "\<not> list_ex (\<lambda>c. group_raises c (rows t)) numeric_cols"
  shows "\<exists>s'. run_steps (map fill_city_median numeric_cols @ map fill_column_median numeric_cols) s
               = (Inr (), s')
             \<and> frame s' = Some (t\<lparr>rows := impute (rows t)\<rparr>)"
proof -
  let ?T = "''temperature_celsius''" and ?H = "''humidity_percent''" and ?W = "''wind_speed_kph''"
  let ?text = "\<lambda>c rs. list_ex (\<lambda>r. is_text (num_get c r)) rs"
  define r0 where "r0 = rows t"
  define r1 where "r1 = group_fill ?T r0"
  define r2 where "r2 = group_fill ?H r1"
  define r3 where "r3 = group_fill ?W r2"
  define r4 where "r4 = global_fill ?T r3"
  define r5 where "r5 = global_fill ?H r4"
  define r6 where "r6 = global_fill ?W r5"
  from cols have cT: "?T \<in> set (columns t)" and cH: "?H \<in> set (columns t)"
    and cW: "?W \<in> set (columns t)"
    by (auto simp: numeric_cols_def)
  from ok have gT: "\<not> group_raises ?T r0" and gH: "\<not> group_raises ?H r0"
    and gW: "\<not> group_raises ?W r0"
    by (auto simp: numeric_cols_def r0_def)
  from gH have gH1: "\<not> group_raises ?H r1"
    by (simp add: r1_def group_raises_group_fill_other)
  from gW have gW2: "\<not> group_raises ?W r2"
    by (simp add: r1_def r2_def group_raises_group_fill_other)
  have tT: "\<not> ?text ?T r3"
    using no_text_group_fill [OF gT]
    by (simp add: r1_def r2_def r3_def has_text_group_fill_other)
  have tH: "\<not> ?text ?H r4"
    using no_text_group_fill [OF gH1]
    by (simp add: r2_def r3_def r4_def has_text_group_fill_other has_text_global_fill_other)
  have tW: "\<not> ?text ?W r5"
    using no_text_group_fill [OF gW2]
    by (simp add: r3_def r4_def r5_def has_text_global_fill_other)
  from tT have nT: "\<not> global_raises ?T r3" by (auto dest: global_raises_text)
  from tH have nH: "\<not> global_raises ?H r4" by (auto dest: global_raises_text)
  from tW have nW: "\<not> global_raises ?W r5" by (auto dest: global_raises_text)
  from fill_city_median_run [OF f cT cols(2)] gT obtain s1
    where 1: "fill_city_median ?T s = (Inr (), s1)" and f1: "frame s1 = Some (t\<lparr>rows := r1\<rparr>)"
    by (auto simp: r0_def r1_def)
  from fill_city_median_run [OF f1] cH cols(2) gH1 obtain s2
    where 2: "fill_city_median ?H s1 = (Inr (), s2)" and f2: "frame s2 = Some (t\<lparr>rows := r2\<rparr>)"
    by (auto simp: r2_def)
  from fill_city_median_run [OF f2] cW cols(2) gW2 obtain s3
    where 3: "fill_city_median ?W s2 = (Inr (), s3)" and f3: "frame s3 = Some (t\<lparr>rows := r3\<rparr>)"
    by (auto simp: r3_def)
  from fill_column_median_run [OF f3] cT nT obtain s4
    where 4: "fill_column_median ?T s3 = (Inr (), s4)" and f4: "frame s4 = Some (t\<lparr>rows := r4\<rparr>)"
    by (auto simp: r4_def)
  from fill_column_median_run [OF f4] cH nH obtain s5
    where 5: "fill_column_median ?H s4 = (Inr (), s5)" and f5: "frame s5 = Some (t\<lparr>rows := r5\<rparr>)"
    by (auto simp: r5_def)
  from fill_column_median_run [OF f5] cW nW obtain s6
    where 6: "fill_column_median ?W s5 = (Inr (), s6)" and f6: "frame s6 = Some (t\<lparr>rows := r6\<rparr>)"
    by (auto simp: r6_def)
  have "r6 = impute (rows t)"
    by (simp add: r6_def r5_def r4_def r3_def r2_def r1_def r0_def impute_def numeric_cols_def)
  with 1 2 3 4 5 6 f6 show ?thesis
    by (simp add: numeric_cols_def)
qed

lemma clean_data_fills_raise:
  assumes f: "frame s = Some t"
    and cols: "set numeric_cols \<subseteq> set (columns t)" "''city'' \<in> set (columns t)"
    and bad: "list_ex (\<lambda>c. group_raises c (rows t)) numeric_cols"
  shows "fst (run_steps (map fill_city_median numeric_cols @ map fill_column_median numeric_cols) s)
         = Inl TypeError"
proof -
  let ?T = "''temperature_celsius''" and ?H = "''humidity_percent''" and ?W = "''wind_speed_kph''"
  from cols have cT: "?T \<in> set (columns t)" and cH: "?H \<in> set (columns t)"
    and cW: "?W \<in> set (columns t)"
    by (auto simp: numeric_cols_def)
  show ?thesis
  proof (cases "group_raises ?T (rows t)")
    case True
    from fill_city_median_raise [OF f cT cols(2) True] show ?thesis
      by (simp add: numeric_cols_def)
  next
    case gT: False
    from fill_city_median_run [OF f cT cols(2) gT] obtain s1
      where 1: "fill_city_median ?T s = (Inr (), s1)"
        and f1: "frame s1 = Some (t\<lparr>rows := group_fill ?T (rows t)\<rparr>)"
      by blast
    show ?thesis
    proof (cases "group_raises ?H (rows t)")
      case True
      then have "group_raises ?H (rows (t\<lparr>rows := group_fill ?T (rows t)\<rparr>))"
        by (simp add: group_raises_group_fill_other)
      from fill_city_median_raise [OF f1 _ _ this] cH cols(2) 1 show ?thesis
        by (simp add: numeric_cols_def)
    next
      case gH: False
      then have "\<not> group_raises ?H (rows (t\<lparr>rows := group_fill ?T (rows t)\<rparr>))"
        by (simp add: group_raises_group_fill_other)
      from fill_city_median_run [OF f1 _ _ this] cH cols(2) obtain s2
        where 2: "fill_city_median ?H s1 = (Inr (), s2)"
          and f2: "frame s2 = Some (t\<lparr>rows := group_fill ?H (group_fill ?T (rows t))\<rparr>)"
        by auto
      from bad gT gH have "group_raises ?W (rows t)"
        by (simp add: numeric_cols_def)
      then have "group_raises ?W (rows (t\<lparr>rows := group_fill ?H (group_fill ?T (rows t))\<rparr>))"
        by (simp add: group_raises_group_fill_other)
      from fill_city_median_raise [OF f2 _ _ this] cW cols(2) 1 2 show ?thesis
        by (simp add: numeric_cols_def)
    qed
  qed
qed

text \<open>\<^verbatim>\<open>clean_data\<close> on a table that has the required columns.\<close>

lemma required_numeric: "set required_columns \<subseteq> cs \<Longrightarrow> set numeric_cols \<subseteq> cs \<and> ''city'' \<in> cs"
  by (auto simp: required_columns_def numeric_cols_def)

lemma clean_data_run:
  assumes f: "frame s = Some t" and req: "set required_columns \<subseteq> set (columns t)"
    and ok: "\<not> list_ex (\<lambda>c. group_raises c (pre_impute e (rows t))) numeric_cols"
  shows "\<exists>s'. clean_data e s = (Inr (), s')
             \<and> frame s' = Some (t\<lparr>rows := impute (pre_impute e (rows t))\<rparr>)"
proof -
  from clean_data_prefix [OF f req] obtain s1
    where 1: "run_steps [check_loaded, coerce_date_column e, drop_missing_dates,
                         standardize_conditions, drop_unknown_conditions] s = (Inr (), s1)"
      and f1: "frame s1 = Some (t\<lparr>rows := pre_impute e (rows t)\<rparr>)"
    by blast
  from clean_data_fills [OF f1] required_numeric [OF req] ok obtain s2
    where "run_steps (map fill_city_median numeric_cols @ map fill_column_median numeric_cols) s1
           = (Inr (), s2)"
      and "frame s2 = Some (t\<lparr>rows := impute (pre_impute e (rows t))\<rparr>)"
    by auto
  with run_steps_append [OF 1] show ?thesis
    by (simp add: clean_data_def)
qed

lemma clean_data_raise:
  assumes f: "frame s = Some t" and req: "set required_columns \<subseteq> set (columns t)"
    and bad: "list_ex (\<lambda>c. group_raises c (pre_impute e (rows t))) numeric_cols"
  shows "fst (clean_data e s) = Inl TypeError"
proof -
  from clean_data_prefix [OF f req] obtain s1
    where 1: "run_steps [check_loaded, coerce_date_column e, drop_missing_dates,
                         standardize_conditions, drop_unknown_conditions] s = (Inr (), s1)"
      and f1: "frame s1 = Some (t\<lparr>rows := pre_impute e (rows t)\<rparr>)"
    by blast
  from clean_data_fills_raise [OF f1] required_numeric [OF req] bad
  have "fst (run_steps (map fill_city_median numeric_cols @ map fill_column_median numeric_cols) s1)
        = Inl TypeError"
    by auto
  with run_steps_append [OF 1] show ?thesis
    by (simp add: clean_data_def)
qed

lemma clean_data_result:
  assumes "frame s = Some t" "set required_columns \<subseteq> set (columns t)"
    and "clean_data e s = (Inr (), s')"
  shows "frame s' = Some (t\<lparr>rows := impute (pre_impute e (rows t))\<rparr>)"
    and "\<not> list_ex (\<lambda>c. group_raises c (pre_impute e (rows t))) numeric_cols"
proof -
  show ok: "\<not> list_ex (\<lambda>c. group_raises c (pre_impute e (rows t))) numeric_cols"
    using clean_data_raise [OF assms(1,2), of e] assms(3) by auto
  from clean_data_run [OF assms(1,2) ok] assms(3)
  show "frame s' = Some (t\<lparr>rows := impute (pre_impute e (rows t))\<rparr>)" by auto
qed

section \<open>What the cleaner guarantees\<close>

lemma fillna_group_NaN:
  "num_get c r = NaN \<Longrightarrow>
   group_fill_cell c rs r = (case city_median c rs r of None \<Rightarrow> NaN | Some m \<Rightarrow> Number m)"
  by (simp add: group_fill_cell_def city_median_def fillna_def split: option.splits)

text \<open>
  C2.  Let the rows be as they stand when the imputation starts.  A cell of a numeric
  column that is missing then ends as the median of the column within the row's city
  group when that median exists; otherwise it is still missing after the group pass and
  ends as the median of the whole column as it stands after the group pass (and stays
  missing when that median does not exist either).
\<close>

theorem clean_data_imputes_medians:
  assumes "frame s = Some t" and "set required_columns \<subseteq> set (columns t)"
    and "clean_data e s = (Inr (), s')"
  shows "\<exists>t'. frame s' = Some t'
           \<and> length (rows t') = length (pre_impute e (rows t))
           \<and> (\<forall>i < length (rows t'). \<forall>col \<in> set numeric_cols.
                 num_get col (pre_impute e (rows t) ! i) = NaN \<longrightarrow>
                 num_get col (rows t' ! i)
                 = (case city_median col (pre_impute e (rows t)) (pre_impute e (rows t) ! i) of
                      Some m \<Rightarrow> Number m
                    | None \<Rightarrow>
                        (case column_median col (group_fill col (pre_impute e (rows t))) of
                           Some m \<Rightarrow> Number m
                         | None \<Rightarrow> NaN)))"
proof -
  let ?rs = "pre_impute e (rows t)"
  from clean_data_result(1) [OF assms]
  have f: "frame s' = Some (t\<lparr>rows := impute ?rs\<rparr>)" .
  have "num_get col (impute ?rs ! i)
        = (case city_median col ?rs (?rs ! i) of
             Some m \<Rightarrow> Number m
           | None \<Rightarrow> (case column_median col (group_fill col ?rs) of
                         Some m \<Rightarrow> Number m | None \<Rightarrow> NaN))"
    if "i < length ?rs" "col \<in> set numeric_cols" "num_get col (?rs ! i) = NaN" for i col
    using impute_cell(1) [OF that(2) that(1)] fillna_group_NaN [OF that(3), of ?rs]
    by (simp add: fillna_def split: option.splits)
  with f show ?thesis by simp
qed

theorem clean_data_imputes_medians_witness:
  "frame (loaded ''weather.csv'') \<noteq> None
   \<and> set required_columns \<subseteq> set (columns (the (frame (loaded ''weather.csv''))))
   \<and> fst (clean_data sample_env (loaded ''weather.csv'')) = Inr ()
   \<and> map (\<lambda>r. (city r, temperature_celsius r, humidity_percent r))
        (pre_impute sample_env (rows (the (frame (loaded ''weather.csv'')))))
     = [(Some ''CityA'', NaN, Number 65), (Some ''CityA'', Number 25, Number 60),
        (Some ''CityB'', Number 30, NaN)]
   \<and> num_get ''temperature_celsius'' (rows (the (frame (cleaned ''weather.csv''))) ! 0) = Number 25
   \<and> num_get ''humidity_percent'' (rows (the (frame (cleaned ''weather.csv''))) ! 2)
     = Number (125 / 2)"
proof -
  let ?s = "loaded ''weather.csv''"
  let ?t = "the (frame ?s)"
  let ?rs = "pre_impute sample_env (rows ?t)"
  have h1: "frame ?s = Some ?t" by code_simp
  have h2: "set required_columns \<subseteq> set (columns ?t)" by code_simp
  have ok: "fst (clean_data sample_env ?s) = Inr ()" by code_simp
  then have h3: "clean_data sample_env ?s = (Inr (), cleaned ''weather.csv'')"
    by (simp add: cleaned_def prod_eq_iff)
  have v: "map (\<lambda>r. (city r, temperature_celsius r, humidity_percent r)) ?rs
     = [(Some ''CityA'', NaN, Number 65), (Some ''CityA'', Number 25, Number 60),
        (Some ''CityB'', Number 30, NaN)]"
    by code_simp
  from clean_data_imputes_medians [OF h1 h2 h3] obtain t'
    where f: "frame (cleaned ''weather.csv'') = Some t'"
      and l: "length (rows t') = length ?rs"
      and m: "\<And>i col. i < length (rows t') \<Longrightarrow> col \<in> set numeric_cols \<Longrightarrow>
                 num_get col (?rs ! i) = NaN \<Longrightarrow>
                 num_get col (rows t' ! i)
                 = (case city_median col ?rs (?rs ! i) of
                      Some m \<Rightarrow> Number m
                    | None \<Rightarrow> (case column_median col (group_fill col ?rs) of
                                  Some m \<Rightarrow> Number m | None \<Rightarrow> NaN))"
    by blast
  have len: "length ?rs = 3" by code_simp
  have a0: "num_get ''temperature_celsius'' (?rs ! 0) = NaN" by code_simp
  have a2: "num_get ''humidity_percent'' (?rs ! 2) = NaN" by code_simp
  have c0: "(case city_median ''temperature_celsius'' ?rs (?rs ! 0) of
               Some m \<Rightarrow> Number m
             | None \<Rightarrow> (case column_median ''temperature_celsius''
                                (group_fill ''temperature_celsius'' ?rs) of
                           Some m \<Rightarrow> Number m | None \<Rightarrow> NaN)) = Number 25"
    by code_simp
  have c2: "(case city_median ''humidity_percent'' ?rs (?rs ! 2) of
               Some m \<Rightarrow> Number m
             | None \<Rightarrow> (case column_median ''humidity_percent''
                                (group_fill ''humidity_percent'' ?rs) of
                           Some m \<Rightarrow> Number m | None \<Rightarrow> NaN)) = Number (125 / 2)"
    by code_simp
  have n0: "''temperature_celsius'' \<in> set numeric_cols"
    and n2: "''humidity_percent'' \<in> set numeric_cols"
    by (simp_all add: numeric_cols_def)
  from m [of 0, OF _ n0 a0] l len c0 f
  have r0: "num_get ''temperature_celsius'' (rows (the (frame (cleaned ''weather.csv''))) ! 0)
            = Number 25"
    by simp
  from m [of 2, OF _ n2 a2] l len c2 f
  have r2: "num_get ''humidity_percent'' (rows (the (frame (cleaned ''weather.csv''))) ! 2)
            = Number (125 / 2)"
    by simp
  from h1 have h0: "frame ?s \<noteq> None" by blast
  show ?thesis by (intro conjI) (fact h0 h2 ok v r0 r2)+
qed

section \<open>Failures of the cleaner\<close>

lemma with_frame_no_value_error:
  "(\<And>t s. fst (f t s) \<noteq> Inl (ValueError m)) \<Longrightarrow> fst (with_frame f s) \<noteq> Inl (ValueError m)"
  by (simp add: with_frame_def split: option.splits)

lemma run_steps_no_value_error:
  "(\<And>f s. f \<in> set fs \<Longrightarrow> fst (f s) \<noteq> Inl (ValueError m))
   \<Longrightarrow> fst (run_steps fs s) \<noteq> Inl (ValueError m)"
proof (induction fs arbitrary: s)
  case Nil
  then show ?case by simp
next
  case (Cons f fs)
  have "fst (f s) \<noteq> Inl (ValueError m)" using Cons.prems by simp
  moreover have "fst (run_steps fs s') \<noteq> Inl (ValueError m)" for s'
    using Cons.IH Cons.prems by simp
  ultimately show ?case
    by (cases "f s") (auto split: sum.splits)
qed

lemma cleaning_steps_no_value_error:
  "fst (coerce_date_column e s) \<noteq> Inl (ValueError m)"
  "fst (drop_missing_dates s) \<noteq> Inl (ValueError m)"
  "fst (standardize_conditions s) \<noteq> Inl (ValueError m)"
  "fst (drop_unknown_conditions s) \<noteq> Inl (ValueError m)"
  "fst (fill_city_median c s) \<noteq> Inl (ValueError m)"
  "fst (fill_column_median c s) \<noteq> Inl (ValueError m)"
  unfolding coerce_date_column_def drop_missing_dates_def standardize_conditions_def
    drop_unknown_conditions_def fill_city_median_def fill_column_median_def
  by (rule with_frame_no_value_error; simp add: Let_def)+

lemma clean_data_not_loaded:
  "df s = None \<Longrightarrow>
   clean_data e s = (Inl (ValueError ''Data not loaded. Call load_data() first.''), s)"
  by (simp add: clean_data_def check_loaded_def)

lemma clean_data_no_value_error:
  assumes "df s \<noteq> None"
  shows "fst (clean_data e s) \<noteq> Inl (ValueError m)"
proof -
  let ?rest = "[coerce_date_column e, drop_missing_dates, standardize_conditions,
                drop_unknown_conditions]
               @ map fill_city_median numeric_cols @ map fill_column_median numeric_cols"
  from assms have "check_loaded s = (Inr (), s)" by (simp add: check_loaded_def)
  then have "clean_data e s = run_steps ?rest s" by (simp add: clean_data_def)
  moreover have "fst (run_steps ?rest s) \<noteq> Inl (ValueError m)"
    by (rule run_steps_no_value_error) (auto simp: cleaning_steps_no_value_error)
  ultimately show ?thesis by simp
qed

lemma group_raises_rows:
  "list_ex (\<lambda>c. group_raises c rs) numeric_cols
   \<longleftrightarrow> (\<exists>r \<in> set rs. city r \<noteq> None \<and> (\<exists>c \<in> set numeric_cols. is_text (num_get c r)))"
  by (auto simp: list_ex_iff group_raises_def)

text \<open>
  C6, as amended.  \<^verbatim>\<open>clean_data\<close> raises the ValueError "Data not loaded" exactly when
  \<^verbatim>\<open>self.df\<close> is unset.  On a table that has the required columns it raises nothing for
  bad dates, sentinel conditions or missing numbers; it raises a TypeError, from the
  median of a city group, exactly when a row that survives the two filters and has a
  city holds text in a numeric column.
\<close>

theorem clean_data_errors:
  "(fst (clean_data e s) = Inl (ValueError ''Data not loaded. Call load_data() first.'')
      \<longleftrightarrow> df s = None)
   \<and> (frame s = Some t \<and> set required_columns \<subseteq> set (columns t) \<longrightarrow>
        (if \<exists>r \<in> set (pre_impute e (rows t)).
               city r \<noteq> None \<and> (\<exists>c \<in> set numeric_cols. is_text (num_get c r))
         then fst (clean_data e s) = Inl TypeError
         else fst (clean_data e s) = Inr ()))"
proof (intro conjI impI)
  show "fst (clean_data e s) = Inl (ValueError ''Data not loaded. Call load_data() first.'')
        \<longleftrightarrow> df s = None"
    using clean_data_not_loaded [of s e] clean_data_no_value_error [of s e]
    by (cases "df s = None") auto
next
  assume a: "frame s = Some t \<and> set required_columns \<subseteq> set (columns t)"
  then have f: "frame s = Some t" and req: "set required_columns \<subseteq> set (columns t)"
    by simp_all
  show "if \<exists>r \<in> set (pre_impute e (rows t)).
               city r \<noteq> None \<and> (\<exists>c \<in> set numeric_cols. is_text (num_get c r))
         then fst (clean_data e s) = Inl TypeError
         else fst (clean_data e s) = Inr ()"
    using clean_data_raise [OF f req, of e] clean_data_run [OF f req, of e]
    unfolding group_raises_rows by (auto simp del: set_simps)
qed

theorem clean_data_errors_witness:
  "df (new_pipeline ''weather.csv'') = None
   \<and> fst (clean_data sample_env (new_pipeline ''weather.csv''))
     = Inl (ValueError ''Data not loaded. Call load_data() first.'')
   \<and> frame (loaded ''weather.csv'') \<noteq> None
   \<and> set required_columns \<subseteq> set (columns (the (frame (loaded ''weather.csv''))))
   \<and> map date (rows (the (frame (loaded ''weather.csv''))))
     = [DateText ''2023-01-02'', DateText ''2023-01-01'', DateText ''invalid_date'',
        DateText ''2023-01-03'']
   \<and> fst (clean_data sample_env (loaded ''weather.csv'')) = Inr ()
   \<and> frame (loaded ''text.csv'') \<noteq> None
   \<and> set required_columns \<subseteq> set (columns (the (frame (loaded ''text.csv''))))
   \<and> fst (clean_data sample_env (loaded ''text.csv'')) = Inl TypeError"
proof -
  let ?n = "new_pipeline ''weather.csv''"
  let ?s = "loaded ''weather.csv''" and ?u = "loaded ''text.csv''"
  have n: "df ?n = None" by (simp add: new_pipeline_def)
  have fs: "frame ?s = Some (the (frame ?s))" by code_simp
  have rs: "set required_columns \<subseteq> set (columns (the (frame ?s)))" by code_simp
  have ds: "map date (rows (the (frame ?s)))
     = [DateText ''2023-01-02'', DateText ''2023-01-01'', DateText ''invalid_date'',
        DateText ''2023-01-03'']" by code_simp
  have ps: "\<not> (\<exists>r \<in> set (pre_impute sample_env (rows (the (frame ?s)))).
               city r \<noteq> None \<and> (\<exists>c \<in> set numeric_cols. is_text (num_get c r)))"
    by code_simp
  have fu: "frame ?u = Some (the (frame ?u))" by code_simp
  have ru: "set required_columns \<subseteq> set (columns (the (frame ?u)))" by code_simp
  have pu: "\<exists>r \<in> set (pre_impute sample_env (rows (the (frame ?u)))).
               city r \<noteq> None \<and> (\<exists>c \<in> set numeric_cols. is_text (num_get c r))"
    by code_simp
  from clean_data_errors [of sample_env ?n] n
  have 1: "fst (clean_data sample_env ?n)
           = Inl (ValueError ''Data not loaded. Call load_data() first.'')"
    by blast
  from clean_data_errors [of sample_env ?s "the (frame ?s)"] fs rs ps
  have 2: "fst (clean_data sample_env ?s) = Inr ()"
    by presburger
  from clean_data_errors [of sample_env ?u "the (frame ?u)"] fu ru pu
  have 3: "fst (clean_data sample_env ?u) = Inl TypeError"
    by presburger
  from fs have fs': "frame ?s \<noteq> None" by blast
  from fu have fu': "frame ?u \<noteq> None" by blast
  show ?thesis by (intro conjI) (fact n 1 fs' rs ds 2 fu' ru 3)+
qed

theorem clean_data_raises_counterexample:
  "fst (load_data sample_env (new_pipeline ''text.csv'')) = Inr ()
   \<and> df (loaded ''text.csv'') = Some 0
   \<and> map_option (\<lambda>t. map temperature_celsius (rows t)) (frame (loaded ''text.csv''))
     = Some [Text ''hot'']
   \<and> fst (clean_data sample_env (loaded ''text.csv'')) = Inl TypeError"
  by code_simp

section \<open>Rows that survive the cleaner\<close>

lemma to_datetime_coerce_cases:
  "to_datetime_coerce e c = NaT \<or> (\<exists>d. to_datetime_coerce e c = Timestamp d)"
  by (cases c) (auto simp: to_datetime_coerce_def split: option.splits)

lemma pre_impute_dates:
  assumes "r \<in> set (pre_impute e rs)"
  shows "\<exists>d. date r = Timestamp d"
proof -
  from assms obtain r0 where "r0 \<in> set rs" and "to_datetime_coerce e (date r0) \<noteq> NaT"
    and "date r = to_datetime_coerce e (date r0)"
    by (auto simp: pre_impute_def filter_conditions_def normalize_conditions_def dropna_date_def
        coerce_dates_def)
  with to_datetime_coerce_cases [of e "date r0"] show ?thesis by auto
qed

lemma lower_char_idem: "lower_char (lower_char c) = lower_char c"
  by (simp add: lower_char_def)

lemma set_strip: "set (strip s) \<subseteq> set s"
proof -
  have "set (strip s) \<subseteq> set (dropWhile is_space s)"
    unfolding strip_def using set_dropWhileD by fastforce
  also have "\<dots> \<subseteq> set s" using set_dropWhileD by fastforce
  finally show ?thesis .
qed

lemma lower_strip_lower: "lower (strip (lower s)) = strip (lower s)"
proof -
  have "lower_char c = c" if "c \<in> set (strip (lower s))" for c
  proof -
    from that set_strip have "c \<in> set (lower s)" by blast
    then show ?thesis by (auto simp: lower_def lower_char_idem)
  qed
  then show ?thesis by (simp add: lower_def map_idI)
qed

lemma pre_impute_conditions:
  assumes "r \<in> set (pre_impute e rs)"
  shows "\<exists>w. weather_condition r = Some w \<and> w \<noteq> '''' \<and> w \<noteq> ''unknown'' \<and> lower w = w"
proof -
  from assms have n: "\<not> isin (weather_condition r) [''unknown'', '''']"
    and m: "r \<in> set (normalize_conditions (dropna_date (coerce_dates e rs)))"
    by (simp_all add: pre_impute_def filter_conditions_def)
  from m obtain r0 where "r0 \<in> set (dropna_date (coerce_dates e rs))"
    and "r = r0\<lparr>weather_condition := normalize_condition (weather_condition r0)\<rparr>"
    unfolding normalize_conditions_def set_map by (rule imageE)
  then have "weather_condition r = Some (strip (lower (astype_str (weather_condition r0))))"
    by (simp add: normalize_condition_def)
  with n show ?thesis
    by (auto simp: isin_def lower_strip_lower)
qed

text \<open>The imputation changes numeric cells only.\<close>

lemma labels_group_fill:
  "map (\<lambda>r. (date r, city r, weather_condition r, extra r)) (group_fill c rs)
   = map (\<lambda>r. (date r, city r, weather_condition r, extra r)) rs"
  by (simp add: group_fill_def o_def)

lemma labels_global_fill:
  "map (\<lambda>r. (date r, city r, weather_condition r, extra r)) (global_fill c rs)
   = map (\<lambda>r. (date r, city r, weather_condition r, extra r)) rs"
  by (simp add: global_fill_map o_def)

lemma labels_impute:
  "map (\<lambda>r. (date r, city r, weather_condition r, extra r)) (impute rs)
   = map (\<lambda>r. (date r, city r, weather_condition r, extra r)) rs"
  by (simp add: impute_def numeric_cols_def labels_group_fill labels_global_fill)

lemma impute_keeps_row:
  assumes "r \<in> set rs"
  shows "\<exists>r' \<in> set (impute rs). date r' = date r \<and> city r' = city r
           \<and> weather_condition r' = weather_condition r \<and> extra r' = extra r"
proof -
  let ?L = "\<lambda>r. (date r, city r, weather_condition r, extra r)"
  from assms have "?L r \<in> set (map ?L rs)" by (simp only: set_map) (rule imageI)
  then have "?L r \<in> set (map ?L (impute rs))" by (simp only: labels_impute)
  then show ?thesis by auto
qed

lemma impute_row_origin:
  assumes "r' \<in> set (impute rs)"
  shows "\<exists>r \<in> set rs. date r' = date r \<and> city r' = city r
           \<and> weather_condition r' = weather_condition r \<and> extra r' = extra r"
proof -
  let ?L = "\<lambda>r. (date r, city r, weather_condition r, extra r)"
  from assms have "?L r' \<in> set (map ?L (impute rs))" by simp
  then have "?L r' \<in> set (map ?L rs)" by (simp only: labels_impute)
  then show ?thesis by auto
qed

lemma strip_lower_nan: "normalize_condition None = Some ''nan''"
  by (simp add: normalize_condition_def astype_str_def lower_def lower_char_def strip_def
      is_space_def)

lemma pre_impute_keeps_missing_condition:
  assumes "r \<in> set rs" "weather_condition r = None" "to_datetime_coerce e (date r) = Timestamp d"
  shows "r\<lparr>date := Timestamp d, weather_condition := Some ''nan''\<rparr> \<in> set (pre_impute e rs)"
proof -
  let ?r1 = "r\<lparr>date := Timestamp d\<rparr>"
  from assms(1,3) have "?r1 \<in> set (dropna_date (coerce_dates e rs))"
    by (force simp: dropna_date_def coerce_dates_def)
  then have "?r1\<lparr>weather_condition := normalize_condition (weather_condition ?r1)\<rparr>
             \<in> set (normalize_conditions (dropna_date (coerce_dates e rs)))"
    unfolding normalize_conditions_def by (simp only: set_map) (rule imageI)
  with assms(2) have "r\<lparr>date := Timestamp d, weather_condition := Some ''nan''\<rparr>
             \<in> set (normalize_conditions (dropna_date (coerce_dates e rs)))"
    by (simp add: strip_lower_nan)
  then show ?thesis
    by (simp add: pre_impute_def filter_conditions_def isin_def)
qed

lemma load_data_frame:
  assumes "files e (input_file s0) = Csv header records" "load_data e s0 = (Inr (), s)"
  shows "frame s = Some \<lparr>columns = header, rows = map (read_row e header records) records\<rparr>"
    and "set required_columns \<subseteq> set header"
proof -
  from assms have d: "''date'' \<in> set header"
    by (auto simp: load_data_def read_csv_def split: if_splits)
  from assms d show "set required_columns \<subseteq> set header"
    by (auto simp: load_data_def read_csv_def Let_def missing_cols_empty split: if_splits)
  from assms d show "frame s = Some \<lparr>columns = header, rows = map (read_row e header records) records\<rparr>"
    by (auto simp: load_data_def read_csv_def Let_def frame_assign_df split: if_splits)
qed

text \<open>
  C10.  A record whose \<^verbatim>\<open>weather_condition\<close> field is a missing-value token of the
  loader is read with the missing marker in that cell; when its date is valid, the row
  survives \<^verbatim>\<open>clean_data\<close> with the condition \<^verbatim>\<open>nan\<close>, the text the string cast makes of
  the marker.
\<close>

theorem clean_data_keeps_missing_condition:
  assumes "files e (input_file s0) = Csv header records"
    and "load_data e s0 = (Inr (), s)"
    and "clean_data e s = (Inr (), s')"
    and "record \<in> set records"
    and "map_of (zip header record) ''weather_condition'' = Some tok"
    and "is_na e tok"
    and "to_datetime_coerce e (date (read_row e header records record)) = Timestamp d"
  shows "weather_condition (read_row e header records record) = None
         \<and> (\<exists>t'. frame s' = Some t'
               \<and> (\<exists>r' \<in> set (rows t').
                     date r' = Timestamp d
                     \<and> city r' = city (read_row e header records record)
                     \<and> weather_condition r' = Some ''nan''
                     \<and> extra r' = extra (read_row e header records record)))"
proof -
  let ?t = "\<lparr>columns = header, rows = map (read_row e header records) records\<rparr>"
  let ?r = "read_row e header records record"
  from load_data_frame [OF assms(1,2)]
  have f: "frame s = Some ?t" and req: "set required_columns \<subseteq> set (columns ?t)"
    by simp_all
  from assms(5,6) have w: "weather_condition ?r = None"
    by (simp add: read_row_def field_def Let_def)
  from assms(4) have m: "?r \<in> set (rows ?t)" by simp
  from pre_impute_keeps_missing_condition [OF m w assms(7)]
  have "?r\<lparr>date := Timestamp d, weather_condition := Some ''nan''\<rparr>
        \<in> set (pre_impute e (rows ?t))" .
  from impute_keeps_row [OF this] obtain r'
    where "r' \<in> set (impute (pre_impute e (rows ?t)))"
      and "date r' = Timestamp d" "city r' = city ?r" "weather_condition r' = Some ''nan''"
      "extra r' = extra ?r"
    by auto
  moreover from clean_data_result(1) [OF f req assms(3)]
  have "frame s' = Some (?t\<lparr>rows := impute (pre_impute e (rows ?t))\<rparr>)" .
  ultimately show ?thesis using w by auto
qed

theorem clean_data_keeps_missing_condition_witness:
  "files sample_env (input_file (new_pipeline ''weather.csv''))
     = Csv sample_header
         [[''2023-01-02'', ''CityA'', '''', ''65'', ''12'', ''cloudy''],
          [''2023-01-01'', ''CityA'', ''25.0'', ''60'', ''10'', ''Sunny ''],
          [''invalid_date'', ''CityA'', ''15'', ''80'', ''20'', ''unknown''],
          [''2023-01-03'', ''CityB'', ''30'', ''NA'', ''5'', ''unknown'']]
   \<and> fst (load_data sample_env (new_pipeline ''weather.csv'')) = Inr ()
   \<and> fst (clean_data sample_env (loaded ''weather.csv'')) = Inr ()
   \<and> is_na sample_env ''unknown''
   \<and> (\<exists>t'. frame (cleaned ''weather.csv'') = Some t'
         \<and> (\<exists>r' \<in> set (rows t').
               date r' = Timestamp (2023, 1, 3, 0) \<and> city r' = Some ''CityB''
               \<and> weather_condition r' = Some ''nan''))"
proof -
  let ?s0 = "new_pipeline ''weather.csv''"
  let ?rec = "[''2023-01-03'', ''CityB'', ''30'', ''NA'', ''5'', ''unknown'']"
  let ?recs = "[[''2023-01-02'', ''CityA'', '''', ''65'', ''12'', ''cloudy''],
          [''2023-01-01'', ''CityA'', ''25.0'', ''60'', ''10'', ''Sunny ''],
          [''invalid_date'', ''CityA'', ''15'', ''80'', ''20'', ''unknown''],
          ?rec]"
  have h1: "files sample_env (input_file ?s0) = Csv sample_header ?recs"
    by (simp add: sample_env_def sample_files_def new_pipeline_def)
  have l: "fst (load_data sample_env ?s0) = Inr ()" by code_simp
  then have h2: "load_data sample_env ?s0 = (Inr (), loaded ''weather.csv'')"
    by (simp add: loaded_def prod_eq_iff)
  have c: "fst (clean_data sample_env (loaded ''weather.csv'')) = Inr ()" by code_simp
  then have h3: "clean_data sample_env (loaded ''weather.csv'') = (Inr (), cleaned ''weather.csv'')"
    by (simp add: cleaned_def prod_eq_iff)
  have h4: "?rec \<in> set ?recs" by simp
  have h5: "map_of (zip sample_header ?rec) ''weather_condition'' = Some ''unknown''"
    by (simp add: sample_header_def)
  have h6: "is_na sample_env ''unknown''"
    by (simp add: is_na_def na_values_def)
  have h7: "to_datetime_coerce sample_env (date (read_row sample_env sample_header ?recs ?rec))
            = Timestamp (2023, 1, 3, 0)"
    by code_simp
  have h8: "city (read_row sample_env sample_header ?recs ?rec) = Some ''CityB''"
    by code_simp
  from clean_data_keeps_missing_condition [OF h1 h2 h3 h4 h5 h6 h7] h8
  have "\<exists>t'. frame (cleaned ''weather.csv'') = Some t'
         \<and> (\<exists>r' \<in> set (rows t').
               date r' = Timestamp (2023, 1, 3, 0) \<and> city r' = Some ''CityB''
               \<and> weather_condition r' = Some ''nan'')"
    by auto
  with h1 l c h6 show ?thesis by blast
qed

text \<open>
  C1 fails on the code: a file whose only row has no temperature is cleaned without an
  error, and the temperature is still missing afterwards (the group median and the
  column median are both NaN).
\<close>

theorem clean_data_leaves_missing_temperature:
  "fst (load_data sample_env (new_pipeline ''no_temperature.csv'')) = Inr ()
   \<and> fst (clean_data sample_env (loaded ''no_temperature.csv'')) = Inr ()
   \<and> map_option (\<lambda>t. map (\<lambda>r. (date r, temperature_celsius r, weather_condition r)) (rows t))
        (frame (cleaned ''no_temperature.csv''))
     = Some [(Timestamp (2023, 1, 1, 0), NaN, Some ''sunny'')]"
  by code_simp

section \<open>The cleaned table\<close>

lemma group_fill_cell_no_text:
  assumes "\<not> group_raises c rs" "r \<in> set rs"
  shows "\<not> is_text (group_fill_cell c rs r)"
proof (cases "city r")
  case None
  then show ?thesis by (simp add: group_fill_cell_def is_text_def)
next
  case (Some k)
  with assms have "\<not> is_text (num_get c r)"
    by (auto simp: group_raises_def list_ex_iff)
  then have "\<not> is_text (fillna (median (group_cells c k rs)) (num_get c r))"
    by (rule fillna_not_text)
  with Some show ?thesis by (simp add: group_fill_cell_def)
qed

lemma impute_no_text:
  assumes "c \<in> set numeric_cols" "\<not> group_raises c rs" "r \<in> set (impute rs)"
  shows "\<not> is_text (num_get c r)"
proof -
  from assms(3) obtain i where i: "i < length rs" and r: "r = impute rs ! i"
    by (auto simp: in_set_conv_nth)
  from i have "rs ! i \<in> set rs" by simp
  from group_fill_cell_no_text [OF assms(2) this]
  have "\<not> is_text (fillna (column_median c (group_fill c rs)) (group_fill_cell c rs (rs ! i)))"
    by (rule fillna_not_text)
  with impute_cell(1) [OF assms(1) i] r show ?thesis by simp
qed

lemma cleaned_table:
  assumes "frame s0 = Some t0" "set required_columns \<subseteq> set (columns t0)"
    and "clean_data e s0 = (Inr (), s)"
  shows "\<exists>t. frame s = Some t \<and> columns t = columns t0
           \<and> (\<forall>r \<in> set (rows t). (\<exists>d. date r = Timestamp d)
                                  \<and> \<not> is_text (temperature_celsius r))"
proof -
  let ?rs = "pre_impute e (rows t0)"
  note res = clean_data_result [OF assms]
  have "(\<exists>d. date r = Timestamp d) \<and> \<not> is_text (temperature_celsius r)"
    if "r \<in> set (impute ?rs)" for r
  proof
    from impute_row_origin [OF that] obtain r0 where "r0 \<in> set ?rs" "date r = date r0"
      by auto
    with pre_impute_dates [of r0 e "rows t0"] show "\<exists>d. date r = Timestamp d" by simp
    from res(2) have "\<not> group_raises ''temperature_celsius'' ?rs"
      by (simp add: numeric_cols_def)
    from impute_no_text [OF _ this that]
    show "\<not> is_text (temperature_celsius r)"
      by (simp add: numeric_cols_def num_get_def)
  qed
  with res(1) show ?thesis by simp
qed

section \<open>Transformer\<close>

lemma set_take_rows: "set (take_rows xs ps) \<subseteq> set xs"
  by (auto simp: take_rows_def)

lemma set_sort_values_date: "set (sort_values_date e rs) \<subseteq> set rs"
  using set_take_rows [of "filter (\<lambda>r. date r \<noteq> NaT) rs"]
  by (auto simp: sort_values_date_def Let_def)

lemma coerce_dates_id:
  assumes "\<And>r. r \<in> set rs \<Longrightarrow> \<exists>d. date r = Timestamp d"
  shows "coerce_dates e rs = rs"
proof -
  have "r\<lparr>date := to_datetime_coerce e (date r)\<rparr> = r" if "r \<in> set rs" for r
    using assms [OF that] by (auto simp: to_datetime_coerce_def)
  then show ?thesis by (simp add: coerce_dates_def map_idI)
qed

lemma sort_by_date_run:
  "frame s = Some t \<Longrightarrow> ''date'' \<in> set (columns t) \<Longrightarrow>
   \<exists>s'. sort_by_date e s = (Inr (), s')
        \<and> frame s' = Some (t\<lparr>rows := sort_values_date e (rows t)\<rparr>)"
  by (simp add: sort_by_date_def with_frame_Some frame_assign_df)

lemma extract_date_parts_run:
  "frame s = Some t \<Longrightarrow> ''date'' \<in> set (columns t) \<Longrightarrow>
   \<exists>s'. extract_date_parts s = (Inr (), s')
        \<and> frame s' = Some \<lparr>columns = add_columns [''year'', ''month'', ''day''] (columns t),
                            rows = date_parts (rows t)\<rparr>"
  by (simp add: extract_date_parts_def with_frame_Some frame_update_df)

lemma convert_fahrenheit_run:
  "frame s = Some t \<Longrightarrow> ''temperature_celsius'' \<in> set (columns t) \<Longrightarrow>
   \<not> list_ex (\<lambda>r. is_text (temperature_celsius r)) (rows t) \<Longrightarrow>
   \<exists>s'. convert_fahrenheit s = (Inr (), s')
        \<and> frame s' = Some \<lparr>columns = add_columns [''temperature_fahrenheit''] (columns t),
                            rows = add_fahrenheit (rows t)\<rparr>"
  by (simp add: convert_fahrenheit_def with_frame_Some frame_update_df)

lemma transform_data_run:
  assumes f: "frame s = Some t"
    and d: "''date'' \<in> set (columns t)" and c: "''temperature_celsius'' \<in> set (columns t)"
    and n: "\<And>r. r \<in> set (rows t) \<Longrightarrow> \<not> is_text (temperature_celsius r)"
  shows "\<exists>s'. transform_data e s = (Inr (), s')
           \<and> frame s'
             = Some \<lparr>columns = add_columns [''temperature_fahrenheit'']
                                 (add_columns [''year'', ''month'', ''day''] (columns t)),
                     rows = transformed_rows e (rows t)\<rparr>"
proof -
  let ?sorted = "sort_values_date e (coerce_dates e (rows t))"
  from coerce_date_column_run [OF f d] obtain s1
    where 1: "coerce_date_column e s = (Inr (), s1)"
      and f1: "frame s1 = Some (t\<lparr>rows := coerce_dates e (rows t)\<rparr>)"
    by blast
  from sort_by_date_run [OF f1] d obtain s2
    where 2: "sort_by_date e s1 = (Inr (), s2)"
      and f2: "frame s2 = Some (t\<lparr>rows := ?sorted\<rparr>)"
    by auto
  from extract_date_parts_run [OF f2] d obtain s3
    where 3: "extract_date_parts s2 = (Inr (), s3)"
      and f3: "frame s3 = Some \<lparr>columns = add_columns [''year'', ''month'', ''day''] (columns t),
                                 rows = date_parts ?sorted\<rparr>"
    by auto
  have "\<not> is_text (temperature_celsius r)" if "r \<in> set (date_parts ?sorted)" for r
  proof -
    from that obtain r1 where "r1 \<in> set ?sorted"
      and "temperature_celsius r = temperature_celsius r1"
      by (auto simp: date_parts_def)
    moreover from this(1) set_sort_values_date have "r1 \<in> set (coerce_dates e (rows t))"
      by blast
    then obtain r0 where "r0 \<in> set (rows t)" "temperature_celsius r1 = temperature_celsius r0"
      by (auto simp: coerce_dates_def)
    ultimately show ?thesis using n by simp
  qed
  then have "\<not> list_ex (\<lambda>r. is_text (temperature_celsius r)) (date_parts ?sorted)"
    by (auto simp: list_ex_iff)
  with convert_fahrenheit_run [OF f3] c obtain s4
    where 4: "convert_fahrenheit s3 = (Inr (), s4)"
      and f4: "frame s4
        = Some \<lparr>columns = add_columns [''temperature_fahrenheit'']
                            (add_columns [''year'', ''month'', ''day''] (columns t)),
                rows = add_fahrenheit (date_parts ?sorted)\<rparr>"
    by (auto simp: add_columns_def)
  from check_loaded_run [OF f] 1 2 3 4 f4 show ?thesis
    by (simp add: transform_data_def transformed_rows_def)
qed

text \<open>
  C4.  On a cleaned table \<^verbatim>\<open>transform_data\<close> succeeds; afterwards the table has the
  columns \<^verbatim>\<open>year\<close>, \<^verbatim>\<open>month\<close>, \<^verbatim>\<open>day\<close> and \<^verbatim>\<open>temperature_fahrenheit\<close>, and in every row
  the Fahrenheit temperature is the Celsius temperature times 9/5 plus 32 (missing when
  the Celsius temperature is) and year, month and day are the parts of the row's date.
\<close>

theorem transform_data_derives_columns:
  assumes "frame s0 = Some t0" and "set required_columns \<subseteq> set (columns t0)"
    and "clean_data e s0 = (Inr (), s)"
  shows "\<exists>s' t'. transform_data e s = (Inr (), s') \<and> frame s' = Some t'
           \<and> set [''year'', ''month'', ''day'', ''temperature_fahrenheit''] \<subseteq> set (columns t')
           \<and> (\<forall>r \<in> set (rows t').
                 (case temperature_celsius r of
                    Number c \<Rightarrow> temperature_fahrenheit r = Number (c * 9 / 5 + 32)
                  | NaN \<Rightarrow> temperature_fahrenheit r = NaN
                  | Text x \<Rightarrow> False)
                 \<and> (\<exists>d. date r = Timestamp d \<and> year r = Some (ts_year d)
                          \<and> month r = Some (ts_month d) \<and> day r = Some (ts_day d)))"
proof -
  from cleaned_table [OF assms] obtain t
    where f: "frame s = Some t" and cols: "columns t = columns t0"
      and inv: "\<And>r. r \<in> set (rows t) \<Longrightarrow>
                  (\<exists>d. date r = Timestamp d) \<and> \<not> is_text (temperature_celsius r)"
    by blast
  from assms(2) cols have d: "''date'' \<in> set (columns t)"
    and c: "''temperature_celsius'' \<in> set (columns t)"
    by (auto simp: required_columns_def)
  from transform_data_run [OF f d c] inv obtain s'
    where run: "transform_data e s = (Inr (), s')"
      and f': "frame s'
        = Some \<lparr>columns = add_columns [''temperature_fahrenheit'']
                            (add_columns [''year'', ''month'', ''day''] (columns t)),
                rows = transformed_rows e (rows t)\<rparr>"
    by blast
  have id: "coerce_dates e (rows t) = rows t"
    using inv by (intro coerce_dates_id) blast
  have rows: "(case temperature_celsius r of
                 Number c \<Rightarrow> temperature_fahrenheit r = Number (c * 9 / 5 + 32)
               | NaN \<Rightarrow> temperature_fahrenheit r = NaN
               | Text x \<Rightarrow> False)
              \<and> (\<exists>d. date r = Timestamp d \<and> year r = Some (ts_year d)
                       \<and> month r = Some (ts_month d) \<and> day r = Some (ts_day d))"
    if "r \<in> set (transformed_rows e (rows t))" for r
  proof -
    from that id obtain r1 where r1: "r1 \<in> set (sort_values_date e (rows t))"
      and r: "r = r1\<lparr>year := dt_part ts_year (date r1), month := dt_part ts_month (date r1),
                      day := dt_part ts_day (date r1),
                      temperature_fahrenheit := fahrenheit (temperature_celsius r1)\<rparr>"
      by (auto simp: transformed_rows_def add_fahrenheit_def date_parts_def)
    from r1 set_sort_values_date have "r1 \<in> set (rows t)" by blast
    from inv [OF this] obtain d where "date r1 = Timestamp d"
      and "\<not> is_text (temperature_celsius r1)"
      by blast
    with r show ?thesis
      by (cases "temperature_celsius r1") (simp_all add: fahrenheit_def dt_part_def is_text_def)
  qed
  have "set [''year'', ''month'', ''day'', ''temperature_fahrenheit'']
        \<subseteq> set (add_columns [''temperature_fahrenheit'']
                  (add_columns [''year'', ''month'', ''day''] (columns t)))"
    by (auto simp: add_columns_def)
  with run f' rows show ?thesis by auto
qed

theorem transform_data_derives_columns_witness:
  "frame (loaded ''weather.csv'') \<noteq> None
   \<and> set required_columns \<subseteq> set (columns (the (frame (loaded ''weather.csv''))))
   \<and> fst (clean_data sample_env (loaded ''weather.csv'')) = Inr ()
   \<and> fst (transform_data sample_env (cleaned ''weather.csv'')) = Inr ()
   \<and> map (\<lambda>r. (date r, temperature_celsius r)) (rows (the (frame (transformed ''weather.csv''))))
     = [(Timestamp (2023, 1, 1, 0), Number 25), (Timestamp (2023, 1, 2, 0), Number 25),
        (Timestamp (2023, 1, 3, 0), Number 30)]
   \<and> list_all (\<lambda>r. case temperature_celsius r of
                      Number c \<Rightarrow> temperature_fahrenheit r = Number (c * 9 / 5 + 32)
                    | NaN \<Rightarrow> temperature_fahrenheit r = NaN
                    | Text x \<Rightarrow> False)
        (rows (the (frame (transformed ''weather.csv''))))"
proof -
  let ?s0 = "loaded ''weather.csv''"
  have h1: "frame ?s0 = Some (the (frame ?s0))" by code_simp
  have h2: "set required_columns \<subseteq> set (columns (the (frame ?s0)))" by code_simp
  have c: "fst (clean_data sample_env ?s0) = Inr ()" by code_simp
  then have h3: "clean_data sample_env ?s0 = (Inr (), cleaned ''weather.csv'')"
    by (simp add: cleaned_def prod_eq_iff)
  have v: "map (\<lambda>r. (date r, temperature_celsius r))
             (rows (the (frame (transformed ''weather.csv''))))
     = [(Timestamp (2023, 1, 1, 0), Number 25), (Timestamp (2023, 1, 2, 0), Number 25),
        (Timestamp (2023, 1, 3, 0), Number 30)]"
    by code_simp
  from transform_data_derives_columns [OF h1 h2 h3] obtain s' t'
    where run: "transform_data sample_env (cleaned ''weather.csv'') = (Inr (), s')"
      and f: "frame s' = Some t'"
      and rows: "\<And>r. r \<in> set (rows t') \<Longrightarrow>
                  (case temperature_celsius r of
                     Number c \<Rightarrow> temperature_fahrenheit r = Number (c * 9 / 5 + 32)
                   | NaN \<Rightarrow> temperature_fahrenheit r = NaN
                   | Text x \<Rightarrow> False)"
    by blast
  from run have t: "fst (transform_data sample_env (cleaned ''weather.csv'')) = Inr ()"
    and "transformed ''weather.csv'' = s'"
    by (simp_all add: transformed_def)
  with f have "the (frame (transformed ''weather.csv'')) = t'" by simp
  with rows have a: "list_all (\<lambda>r. case temperature_celsius r of
                      Number c \<Rightarrow> temperature_fahrenheit r = Number (c * 9 / 5 + 32)
                    | NaN \<Rightarrow> temperature_fahrenheit r = NaN
                    | Text x \<Rightarrow> False)
        (rows (the (frame (transformed ''weather.csv''))))"
    by (simp add: list_all_iff)
  from h1 have h0: "frame ?s0 \<noteq> None" by blast
  show ?thesis by (intro conjI) (fact h0 h2 c t v a)+
qed

section \<open>Analyzer\<close>

lemma analyze_data_result:
  assumes "frame s = Some t" "analyze_data e s = (Inr res, s')"
  shows "res = [(''basic_stats'', length (heap s)), (''city_stats'', length (heap s) + 1),
                (''weather_freq'', length (heap s) + 2), (''top_cities'', length (heap s) + 3)]"
    and "heap s' = heap s @ [View (BasicStats (basic_stats e (rows t))),
                             View (CityStats (city_stats (rows t))),
                             View (WeatherFreq (weather_freq e (rows t))),
                             View (TopCities (top_cities e (rows t)))]"
    and "df s' = df s" and "stdout s' = stdout s" and "written s' = written s"
  using assms
  by (auto simp: analyze_data_def alloc_def Let_def split: if_splits list.splits)

lemma frame_heap_append:
  "df s' = df s \<Longrightarrow> heap s' = heap s @ obs \<Longrightarrow> frame s = None \<longrightarrow> obs = [] \<Longrightarrow>
   frame s' = frame s"
  by (auto simp: frame_def nth_append split: option.splits if_splits)

lemma analyze_data_frame:
  assumes "analyze_data e s = (r, s')"
  shows "df s' = df s \<and> stdout s' = stdout s \<and> written s' = written s
   \<and> input_file s' = input_file s \<and> output_dir s' = output_dir s
   \<and> (\<exists>obs. heap s' = heap s @ obs \<and> (frame s = None \<longrightarrow> obs = []))"
proof (cases "frame s")
  case None
  with assms have "s' = s"
    by (simp add: analyze_data_def split: if_splits)
  then show ?thesis by simp
next
  case (Some t)
  with assms show ?thesis
    by (simp add: analyze_data_def alloc_def Let_def split: if_splits list.splits) auto
qed

text \<open>
  C9.  \<^verbatim>\<open>analyze_data\<close> leaves \<^verbatim>\<open>self.df\<close>, the table it refers to and every object that
  existed before the call as they were, whether it returns or raises; the four views it
  returns are four different objects created by the call, none of them the table.
\<close>

theorem analyze_data_read_only:
  "analyze_data e s = (r, s') \<longrightarrow>
     df s' = df s \<and> frame s' = frame s \<and> take (length (heap s)) (heap s') = heap s
     \<and> stdout s' = stdout s \<and> written s' = written s
     \<and> (\<forall>res. r = Inr res \<longrightarrow>
           map fst res = [''basic_stats'', ''city_stats'', ''weather_freq'', ''top_cities'']
           \<and> distinct (map snd res)
           \<and> (\<forall>a \<in> set (map snd res).
                 length (heap s) \<le> a \<and> a < length (heap s') \<and> df s \<noteq> Some a
                 \<and> (\<exists>v. heap s' ! a = View v)))"
proof
  assume run: "analyze_data e s = (r, s')"
  note fr = analyze_data_frame [OF run]
  from fr have d: "df s' = df s" and o: "stdout s' = stdout s" and w: "written s' = written s"
    by simp_all
  from fr obtain obs
    where h: "heap s' = heap s @ obs" and n: "frame s = None \<longrightarrow> obs = []"
    by (elim conjE exE)
  from frame_heap_append [OF d h n] have f: "frame s' = frame s" .
  have v: "map fst res = [''basic_stats'', ''city_stats'', ''weather_freq'', ''top_cities'']
           \<and> distinct (map snd res)
           \<and> (\<forall>a \<in> set (map snd res).
                 length (heap s) \<le> a \<and> a < length (heap s') \<and> df s \<noteq> Some a
                 \<and> (\<exists>v. heap s' ! a = View v))"
    if r: "r = Inr res" for res
  proof -
    from run r have "frame s \<noteq> None"
      by (auto simp: analyze_data_def split: if_splits option.splits)
    then obtain t where t: "frame s = Some t" by blast
    then obtain a0 where a0: "df s = Some a0" "a0 < length (heap s)"
      by (auto simp: frame_def split: option.splits if_splits)
    from analyze_data_result(1,2) [OF t run [unfolded r]] a0 show ?thesis
      by (simp add: nth_append)
  qed
  from d f h o w v show "df s' = df s \<and> frame s' = frame s
     \<and> take (length (heap s)) (heap s') = heap s
     \<and> stdout s' = stdout s \<and> written s' = written s
     \<and> (\<forall>res. r = Inr res \<longrightarrow>
           map fst res = [''basic_stats'', ''city_stats'', ''weather_freq'', ''top_cities'']
           \<and> distinct (map snd res)
           \<and> (\<forall>a \<in> set (map snd res).
                 length (heap s) \<le> a \<and> a < length (heap s') \<and> df s \<noteq> Some a
                 \<and> (\<exists>v. heap s' ! a = View v)))"
    by simp
qed

theorem analyze_data_read_only_witness:
  "fst (analyze_data sample_env (transformed ''weather.csv''))
     = Inr [(''basic_stats'', 4), (''city_stats'', 5), (''weather_freq'', 6), (''top_cities'', 7)]
   \<and> df (transformed ''weather.csv'') = Some 3
   \<and> length (heap (transformed ''weather.csv'')) = 4
   \<and> df (snd (analyze_data sample_env (transformed ''weather.csv''))) = Some 3
   \<and> frame (snd (analyze_data sample_env (transformed ''weather.csv'')))
     = frame (transformed ''weather.csv'')
   \<and> take 4 (heap (snd (analyze_data sample_env (transformed ''weather.csv''))))
     = heap (transformed ''weather.csv'')"
proof -
  let ?s = "transformed ''weather.csv''"
  let ?res = "[(''basic_stats'', 4), (''city_stats'', 5), (''weather_freq'', 6),
               (''top_cities'', 7 :: nat)]"
  have r: "fst (analyze_data sample_env ?s) = Inr ?res" by code_simp
  have d: "df ?s = Some 3" by code_simp
  have l: "length (heap ?s) = 4" by code_simp
  from r have run: "analyze_data sample_env ?s = (Inr ?res, snd (analyze_data sample_env ?s))"
    by (simp add: prod_eq_iff)
  from analyze_data_read_only [of sample_env ?s "Inr ?res" "snd (analyze_data sample_env ?s)"] run
  have "df (snd (analyze_data sample_env ?s)) = df ?s"
    and "frame (snd (analyze_data sample_env ?s)) = frame ?s"
    and "take (length (heap ?s)) (heap (snd (analyze_data sample_env ?s))) = heap ?s"
    by blast+
  with r d l show ?thesis by simp
qed

section \<open>The entry point\<close>

lemma pipeline_steps_ok:
  "load_data e s0 = (Inr (), s1) \<Longrightarrow> clean_data e s1 = (Inr (), s2) \<Longrightarrow>
   transform_data e s2 = (Inr (), s3) \<Longrightarrow> analyze_data e s3 = (Inr res, s4) \<Longrightarrow>
   save_results e res s4 = (Inr (), s5) \<Longrightarrow>
   pipeline_steps e s0 = (Inr (), print Completed s5)"
  by (simp add: pipeline_steps_def)

lemma pipeline_steps_cases:
  assumes "pipeline_steps e s0 = (r, s')"
  shows "(r = Inr () \<and>
          (\<exists>s1 s2 s3 res s4 s5.
              load_data e s0 = (Inr (), s1) \<and> clean_data e s1 = (Inr (), s2)
              \<and> transform_data e s2 = (Inr (), s3) \<and> analyze_data e s3 = (Inr res, s4)
              \<and> save_results e res s4 = (Inr (), s5) \<and> s' = print Completed s5))
       \<or> (\<exists>err. r = Inl err \<and>
             (load_data e s0 = (Inl err, s')
              \<or> (\<exists>s1. load_data e s0 = (Inr (), s1) \<and> clean_data e s1 = (Inl err, s'))
              \<or> (\<exists>s1 s2. load_data e s0 = (Inr (), s1) \<and> clean_data e s1 = (Inr (), s2)
                     \<and> transform_data e s2 = (Inl err, s'))
              \<or> (\<exists>s1 s2 s3. load_data e s0 = (Inr (), s1) \<and> clean_data e s1 = (Inr (), s2)
                     \<and> transform_data e s2 = (Inr (), s3) \<and> analyze_data e s3 = (Inl err, s'))
              \<or> (\<exists>s1 s2 s3 res s4. load_data e s0 = (Inr (), s1)
                     \<and> clean_data e s1 = (Inr (), s2) \<and> transform_data e s2 = (Inr (), s3)
                     \<and> analyze_data e s3 = (Inr res, s4)
                     \<and> save_results e res s4 = (Inl err, s'))))"
proof (cases "load_data e s0")
  case L: (Pair r1 s1)
  show ?thesis
  proof (cases r1)
    case (Inl err)
    with L assms show ?thesis by (auto simp: pipeline_steps_def)
  next
    case Inr
    with L have L': "load_data e s0 = (Inr (), s1)" by simp
    show ?thesis
    proof (cases "clean_data e s1")
      case C: (Pair r2 s2)
      show ?thesis
      proof (cases r2)
        case (Inl err)
        with L' C assms show ?thesis by (auto simp: pipeline_steps_def)
      next
        case Inr
        with C have C': "clean_data e s1 = (Inr (), s2)" by simp
        show ?thesis
        proof (cases "transform_data e s2")
          case T: (Pair r3 s3)
          show ?thesis
          proof (cases r3)
            case (Inl err)
            with L' C' T assms show ?thesis by (auto simp: pipeline_steps_def)
          next
            case Inr
            with T have T': "transform_data e s2 = (Inr (), s3)" by simp
            show ?thesis
            proof (cases "analyze_data e s3")
              case A: (Pair r4 s4)
              show ?thesis
              proof (cases r4)
                case (Inl err)
                with L' C' T' A assms show ?thesis by (auto simp: pipeline_steps_def)
              next
                case (Inr res)
                with A have A': "analyze_data e s3 = (Inr res, s4)" by simp
                show ?thesis
                proof (cases "save_results e res s4")
                  case S: (Pair r5 s5)
                  show ?thesis
                  proof (cases r5)
                    case (Inl err)
                    with L' C' T' A' S assms show ?thesis by (auto simp: pipeline_steps_def)
                  next
                    case Inr
                    with L' C' T' A' S assms show ?thesis by (auto simp: pipeline_steps_def)
                  qed
                qed
              qed
            qed
          qed
        qed
      qed
    qed
  qed
qed

text \<open>
  C8.  \<^verbatim>\<open>run_pipeline\<close> always returns a boolean.  It returns \<^verbatim>\<open>True\<close> exactly when
  \<^verbatim>\<open>load_data\<close>, \<^verbatim>\<open>clean_data\<close>, \<^verbatim>\<open>transform_data\<close>, \<^verbatim>\<open>analyze_data\<close> and
  \<^verbatim>\<open>save_results\<close> succeed one after the other, each on the state the one before left.
  Otherwise it returns \<^verbatim>\<open>False\<close>: the first stage that raises ends the run, no later
  stage is called, and the error is printed as the last line.
\<close>

theorem run_pipeline_outcome:
  "(\<exists>b. fst (run_pipeline e s) = Inr b)
   \<and> (fst (run_pipeline e s) = Inr True \<longleftrightarrow>
        (\<exists>s1 s2 s3 res s4 s5.
            load_data e (print Starting s) = (Inr (), s1) \<and> clean_data e s1 = (Inr (), s2)
            \<and> transform_data e s2 = (Inr (), s3) \<and> analyze_data e s3 = (Inr res, s4)
            \<and> save_results e res s4 = (Inr (), s5)
            \<and> snd (run_pipeline e s) = print Completed s5))
   \<and> (fst (run_pipeline e s) = Inr False \<longrightarrow>
        (\<exists>err s'.
            snd (run_pipeline e s) = print (Error_in_pipeline err) s'
            \<and> last (stdout (snd (run_pipeline e s))) = Error_in_pipeline err
            \<and> (load_data e (print Starting s) = (Inl err, s')
                \<or> (\<exists>s1. load_data e (print Starting s) = (Inr (), s1)
                       \<and> clean_data e s1 = (Inl err, s'))
                \<or> (\<exists>s1 s2. load_data e (print Starting s) = (Inr (), s1)
                       \<and> clean_data e s1 = (Inr (), s2) \<and> transform_data e s2 = (Inl err, s'))
                \<or> (\<exists>s1 s2 s3. load_data e (print Starting s) = (Inr (), s1)
                       \<and> clean_data e s1 = (Inr (), s2) \<and> transform_data e s2 = (Inr (), s3)
                       \<and> analyze_data e s3 = (Inl err, s'))
                \<or> (\<exists>s1 s2 s3 res s4. load_data e (print Starting s) = (Inr (), s1)
                       \<and> clean_data e s1 = (Inr (), s2) \<and> transform_data e s2 = (Inr (), s3)
                       \<and> analyze_data e s3 = (Inr res, s4)
                       \<and> save_results e res s4 = (Inl err, s')))))"
proof -
  let ?p = "print Starting s"
  obtain r s' where p: "pipeline_steps e ?p = (r, s')" by (cases "pipeline_steps e ?p")
  note c = pipeline_steps_cases [OF p]
  show ?thesis
  proof (cases r)
    case (Inl err)
    with p have run: "run_pipeline e s = (Inr False, print (Error_in_pipeline err) s')"
      by (simp add: run_pipeline_def)
    have ok: "pipeline_steps e ?p \<noteq> (Inr (), x)" for x
      using p Inl by simp
    have 1: "\<not> (\<exists>s1 s2 s3 res s4 s5.
            load_data e ?p = (Inr (), s1) \<and> clean_data e s1 = (Inr (), s2)
            \<and> transform_data e s2 = (Inr (), s3) \<and> analyze_data e s3 = (Inr res, s4)
            \<and> save_results e res s4 = (Inr (), s5)
            \<and> snd (run_pipeline e s) = print Completed s5)"
      using pipeline_steps_ok [of e ?p] ok by blast
    from c Inl have 2: "load_data e ?p = (Inl err, s')
        \<or> (\<exists>s1. load_data e ?p = (Inr (), s1) \<and> clean_data e s1 = (Inl err, s'))
        \<or> (\<exists>s1 s2. load_data e ?p = (Inr (), s1) \<and> clean_data e s1 = (Inr (), s2)
               \<and> transform_data e s2 = (Inl err, s'))
        \<or> (\<exists>s1 s2 s3. load_data e ?p = (Inr (), s1) \<and> clean_data e s1 = (Inr (), s2)
               \<and> transform_data e s2 = (Inr (), s3) \<and> analyze_data e s3 = (Inl err, s'))
        \<or> (\<exists>s1 s2 s3 res s4. load_data e ?p = (Inr (), s1)
               \<and> clean_data e s1 = (Inr (), s2) \<and> transform_data e s2 = (Inr (), s3)
               \<and> analyze_data e s3 = (Inr res, s4) \<and> save_results e res s4 = (Inl err, s'))"
      by simp
    have 3: "last (stdout (print (Error_in_pipeline err) s')) = Error_in_pipeline err"
      by (simp add: print_def)
    have a: "\<exists>b. fst (run_pipeline e s) = Inr b" using run by auto
    have b: "fst (run_pipeline e s) \<noteq> Inr True" using run by simp
    have d: "\<exists>err s'.
            snd (run_pipeline e s) = print (Error_in_pipeline err) s'
            \<and> last (stdout (snd (run_pipeline e s))) = Error_in_pipeline err
            \<and> (load_data e ?p = (Inl err, s')
                \<or> (\<exists>s1. load_data e ?p = (Inr (), s1) \<and> clean_data e s1 = (Inl err, s'))
                \<or> (\<exists>s1 s2. load_data e ?p = (Inr (), s1)
                       \<and> clean_data e s1 = (Inr (), s2) \<and> transform_data e s2 = (Inl err, s'))
                \<or> (\<exists>s1 s2 s3. load_data e ?p = (Inr (), s1)
                       \<and> clean_data e s1 = (Inr (), s2) \<and> transform_data e s2 = (Inr (), s3)
                       \<and> analyze_data e s3 = (Inl err, s'))
                \<or> (\<exists>s1 s2 s3 res s4. load_data e ?p = (Inr (), s1)
                       \<and> clean_data e s1 = (Inr (), s2) \<and> transform_data e s2 = (Inr (), s3)
                       \<and> analyze_data e s3 = (Inr res, s4)
                       \<and> save_results e res s4 = (Inl err, s')))"
      apply (rule exI [of _ err])
      apply (rule exI [of _ s'])
      using run 2 3 by simp
    from a b 1 d show ?thesis by (simp only: simp_thms)
  next
    case (Inr u)
    with p have run: "run_pipeline e s = (Inr True, s')"
      by (simp add: run_pipeline_def)
    from c Inr have "\<exists>s1 s2 s3 res s4 s5.
            load_data e ?p = (Inr (), s1) \<and> clean_data e s1 = (Inr (), s2)
            \<and> transform_data e s2 = (Inr (), s3) \<and> analyze_data e s3 = (Inr res, s4)
            \<and> save_results e res s4 = (Inr (), s5) \<and> s' = print Completed s5"
      by simp
    then have 1: "\<exists>s1 s2 s3 res s4 s5.
            load_data e ?p = (Inr (), s1) \<and> clean_data e s1 = (Inr (), s2)
            \<and> transform_data e s2 = (Inr (), s3) \<and> analyze_data e s3 = (Inr res, s4)
            \<and> save_results e res s4 = (Inr (), s5)
            \<and> snd (run_pipeline e s) = print Completed s5"
      using run by simp
    have a: "fst (run_pipeline e s) = Inr True" using run by simp
    from a have "\<exists>b. fst (run_pipeline e s) = Inr b" by blast
    with a 1 show ?thesis by simp
  qed
qed

theorem run_pipeline_outcome_witness:
  "fst (run_pipeline sample_env (new_pipeline ''weather.csv'')) = Inr True
   \<and> stdout (snd (run_pipeline sample_env (new_pipeline ''weather.csv'')))
     = [Starting, Dropped_dates 1,
        Processed_saved ''outputs/transformed_weather_data.csv'',
        Result_saved ''basic_stats'' ''outputs/basic_stats.csv'',
        Result_saved ''city_stats'' ''outputs/city_stats.csv'',
        Result_saved ''weather_freq'' ''outputs/weather_freq.csv'',
        Report_saved ''outputs/top_cities_report.md'',
        Plot_saved ''outputs/avg_temperature_by_city.png'',
        Completed]
   \<and> fst (run_pipeline sample_env (new_pipeline ''text.csv'')) = Inr False
   \<and> last (stdout (snd (run_pipeline sample_env (new_pipeline ''text.csv''))))
     = Error_in_pipeline TypeError"
proof -
  let ?w = "new_pipeline ''weather.csv''" and ?x = "new_pipeline ''text.csv''"
  have t: "fst (run_pipeline sample_env ?w) = Inr True" by code_simp
  have o: "stdout (snd (run_pipeline sample_env ?w))
     = [Starting, Dropped_dates 1,
        Processed_saved ''outputs/transformed_weather_data.csv'',
        Result_saved ''basic_stats'' ''outputs/basic_stats.csv'',
        Result_saved ''city_stats'' ''outputs/city_stats.csv'',
        Result_saved ''weather_freq'' ''outputs/weather_freq.csv'',
        Report_saved ''outputs/top_cities_report.md'',
        Plot_saved ''outputs/avg_temperature_by_city.png'',
        Completed]"
    by code_simp
  have f: "fst (run_pipeline sample_env ?x) = Inr False" by code_simp
  have l: "stdout (snd (run_pipeline sample_env ?x)) = [Starting, Error_in_pipeline TypeError]"
    by code_simp
  from run_pipeline_outcome [of sample_env ?x] f obtain err s'
    where "last (stdout (snd (run_pipeline sample_env ?x))) = Error_in_pipeline err"
    by blast
  with l have "last (stdout (snd (run_pipeline sample_env ?x))) = Error_in_pipeline TypeError"
    by simp
  with t o f show ?thesis by simp
qed

section \<open>Sorting by date\<close>

lemma argsort_ok_mset: "argsort_ok ks ps \<Longrightarrow> mset ps = mset [0..<length ks]"
proof -
  assume "argsort_ok ks ps"
  then have "sort ps = [0..<length ks]" by (simp add: argsort_ok_def)
  then have "mset (sort ps) = mset [0..<length ks]" by simp
  then show ?thesis by simp
qed

lemma argsort_ok_bound: "argsort_ok ks ps \<Longrightarrow> i \<in> set ps \<Longrightarrow> i < length ks"
proof -
  assume "argsort_ok ks ps" "i \<in> set ps"
  from argsort_ok_mset [OF this(1)] have "set ps = set [0..<length ks]"
    by (rule mset_eq_setD)
  with \<open>i \<in> set ps\<close> show ?thesis by simp
qed

lemma take_rows_map: "(\<And>i. i \<in> set ps \<Longrightarrow> i < length xs) \<Longrightarrow> take_rows xs ps = map (\<lambda>i. xs ! i) ps"
  by (induction ps) (simp_all add: take_rows_def)

lemma mset_map_nth:
  assumes "mset ps = mset [0..<length xs]"
  shows "mset (map (\<lambda>i. xs ! i) ps) = mset xs"
proof -
  have "mset (map (\<lambda>i. xs ! i) ps) = image_mset (\<lambda>i. xs ! i) (mset ps)" by simp
  also have "\<dots> = image_mset (\<lambda>i. xs ! i) (mset [0..<length xs])" by (simp only: assms)
  also have "\<dots> = mset (map (\<lambda>i. xs ! i) [0..<length xs])" by simp
  also have "\<dots> = mset xs" by (simp only: map_nth)
  finally show ?thesis .
qed

lemma sort_values_date_sorted:
  assumes dated: "\<And>r. r \<in> set rs \<Longrightarrow> \<exists>d. date r = Timestamp d"
    and ok: "argsort_ok (map date_key rs) (quicksort_datetime e (map date_key rs))"
  shows "sorted (map date_key (sort_values_date e rs))"
    and "mset (sort_values_date e rs) = mset rs"
proof -
  let ?ps = "quicksort_datetime e (map date_key rs)"
  have nn: "date r \<noteq> NaT" if "r \<in> set rs" for r
    using dated [OF that] by auto
  then have all: "filter (\<lambda>r. date r \<noteq> NaT) rs = rs"
    by simp
  from nn have none: "filter (\<lambda>r. date r = NaT) rs = []"
    by (simp add: filter_empty_conv)
  have b: "i < length rs" if "i \<in> set ?ps" for i
    using argsort_ok_bound [OF ok that] by simp
  then have eq: "sort_values_date e rs = map (\<lambda>i. rs ! i) ?ps"
    by (simp add: sort_values_date_def all none take_rows_map)
  have "map date_key (map (\<lambda>i. rs ! i) ?ps) = map (\<lambda>i. map date_key rs ! i) ?ps"
    using b by simp
  with ok show "sorted (map date_key (sort_values_date e rs))"
    by (simp only: eq argsort_ok_def)
  from argsort_ok_mset [OF ok] have "mset ?ps = mset [0..<length rs]" by simp
  from mset_map_nth [OF this] show "mset (sort_values_date e rs) = mset rs"
    by (simp only: eq)
qed

section \<open>Order of occurrence in a list\<close>










section \<open>Stable kernels\<close>

lemma stable_argsort_ok: "stable_argsort ks ps \<Longrightarrow> argsort_ok ks ps"
proof -
  assume "stable_argsort ks ps"
  then have ps: "ps = sort_key (\<lambda>i. ks ! i) [0..<length ks]" by (simp only: stable_argsort_def)
  have "sort ps = [0..<length ks]"
    unfolding ps by (rule properties_for_sort) simp_all
  moreover have "sorted (map (\<lambda>i. ks ! i) ps)"
    unfolding ps by (rule sorted_sort_key)
  ultimately show ?thesis by (simp only: argsort_ok_def simp_thms)
qed

text \<open>The introsort sorts up to 17 keys by insertion, so it is stable on them.\<close>

lemma insertion_range_all:
  "insertion_range v [0..<n] 0 (n - 1) = sort_key (\<lambda>i. v ! i) [0..<n]"
proof -
  consider "n = 0" | "n = 1" | "1 < n" by linarith
  then show ?thesis
  proof cases
    case 1
    then show ?thesis by (simp add: insertion_range_def)
  next
    case 2
    then show ?thesis by (simp add: insertion_range_def)
  next
    case 3
    then show ?thesis by (simp add: insertion_range_def)
  qed
qed

lemma introsort_stable: "length ks \<le> 17 \<Longrightarrow> stable_argsort ks (introsort ks)"
proof -
  assume "length ks \<le> 17"
  then have s: "\<not> 16 < length ks - 1" by simp
  have "introsort_range d ks [0..<length ks] 0 (length ks - 1)
        = insertion_range ks [0..<length ks] 0 (length ks - 1)" for d
    using s by (cases d) simp_all
  then show ?thesis
    by (simp only: stable_argsort_def introsort_def insertion_range_all)
qed







section \<open>The n largest entries of a series\<close>

lemma ranks_above_None [simp]: "ranks_above a None"
  by (simp add: ranks_above_def)

lemma ranks_above_Some [simp]: "ranks_above (Some x) (Some y) \<longleftrightarrow> y \<le> x"
  by (simp add: ranks_above_def)











section \<open>Rounding keeps the order\<close>




section \<open>The cities of a table\<close>









text \<open>
  C3, as amended.  On a cleaned table \<^verbatim>\<open>transform_data\<close> succeeds and, the sorting kernel
  of \<^verbatim>\<open>sort_values\<close> returning a sorting permutation for the dates of the table, the rows
  afterwards are the cleaned rows, each of them once, in non-decreasing order of date.
  (Nothing is said about the order of rows of equal date.)
\<close>

theorem transform_data_sorts_by_date:
  assumes "frame s0 = Some t0" and "set required_columns \<subseteq> set (columns t0)"
    and "clean_data e s0 = (Inr (), s)" and "frame s = Some t"
    and "argsort_ok (map date_key (rows t)) (quicksort_datetime e (map date_key (rows t)))"
  shows "\<exists>s' t'. transform_data e s = (Inr (), s') \<and> frame s' = Some t'
           \<and> (\<forall>r \<in> set (rows t'). \<exists>d. date r = Timestamp d)
           \<and> sorted (map date_key (rows t'))
           \<and> mset (map (\<lambda>r. (date r, city r, temperature_celsius r, humidity_percent r,
                               wind_speed_kph r, weather_condition r, extra r)) (rows t'))
             = mset (map (\<lambda>r. (date r, city r, temperature_celsius r, humidity_percent r,
                                 wind_speed_kph r, weather_condition r, extra r)) (rows t))"
proof -
  let ?orig = "\<lambda>r. (date r, city r, temperature_celsius r, humidity_percent r,
                     wind_speed_kph r, weather_condition r, extra r)"
  from cleaned_table [OF assms(1-3)] assms(4)
  have cols: "columns t = columns t0"
    and inv: "\<And>r. r \<in> set (rows t) \<Longrightarrow>
                (\<exists>d. date r = Timestamp d) \<and> \<not> is_text (temperature_celsius r)"
    by auto
  from assms(2) cols have d: "''date'' \<in> set (columns t)"
    and c: "''temperature_celsius'' \<in> set (columns t)"
    by (auto simp: required_columns_def)
  from transform_data_run [OF assms(4) d c] inv obtain s'
    where run: "transform_data e s = (Inr (), s')"
      and f': "frame s'
        = Some \<lparr>columns = add_columns [''temperature_fahrenheit'']
                            (add_columns [''year'', ''month'', ''day''] (columns t)),
                rows = transformed_rows e (rows t)\<rparr>"
    by blast
  have id: "coerce_dates e (rows t) = rows t"
    using inv by (intro coerce_dates_id) blast
  let ?sorted = "sort_values_date e (rows t)"
  have tr: "transformed_rows e (rows t) = add_fahrenheit (date_parts ?sorted)"
    by (simp add: transformed_rows_def id)
  have dated: "\<exists>d. date r = Timestamp d" if "r \<in> set (rows t)" for r
    using inv [OF that] by blast
  note srt = sort_values_date_sorted [OF dated assms(5)]
  have k: "map date_key (add_fahrenheit (date_parts ?sorted)) = map date_key ?sorted"
    by (simp add: add_fahrenheit_def date_parts_def date_key_def o_def)
  have o: "map ?orig (add_fahrenheit (date_parts ?sorted)) = map ?orig ?sorted"
    by (simp add: add_fahrenheit_def date_parts_def o_def)
  have 1: "sorted (map date_key (transformed_rows e (rows t)))"
    using srt(1) by (simp only: tr k)
  have "mset (map ?orig ?sorted) = mset (map ?orig (rows t))"
    using srt(2) by (metis mset_map)
  then have 2: "mset (map ?orig (transformed_rows e (rows t))) = mset (map ?orig (rows t))"
    by (simp only: tr o)
  have 3: "\<exists>d. date r = Timestamp d" if "r \<in> set (transformed_rows e (rows t))" for r
  proof -
    from that obtain r1 where "r1 \<in> set ?sorted" "date r = date r1"
      by (auto simp: tr add_fahrenheit_def date_parts_def)
    moreover from this(1) set_sort_values_date have "r1 \<in> set (rows t)" by blast
    ultimately show ?thesis using dated by simp
  qed
  from run f' 1 2 3 show ?thesis by auto
qed

theorem transform_data_sorts_by_date_witness:
  "frame (loaded ''weather.csv'') \<noteq> None
   \<and> set required_columns \<subseteq> set (columns (the (frame (loaded ''weather.csv''))))
   \<and> fst (clean_data sample_env (loaded ''weather.csv'')) = Inr ()
   \<and> frame (cleaned ''weather.csv'') \<noteq> None
   \<and> map date (rows (the (frame (cleaned ''weather.csv''))))
     = [Timestamp (2023, 1, 2, 0), Timestamp (2023, 1, 1, 0), Timestamp (2023, 1, 3, 0)]
   \<and> argsort_ok (map date_key (rows (the (frame (cleaned ''weather.csv'')))))
        (quicksort_datetime sample_env
           (map date_key (rows (the (frame (cleaned ''weather.csv''))))))
   \<and> fst (transform_data sample_env (cleaned ''weather.csv'')) = Inr ()
   \<and> sorted (map date_key (rows (the (frame (transformed ''weather.csv'')))))"
proof -
  let ?l = "loaded ''weather.csv''" and ?c = "cleaned ''weather.csv''"
  have h1: "frame ?l = Some (the (frame ?l))" by code_simp
  have h2: "set required_columns \<subseteq> set (columns (the (frame ?l)))" by code_simp
  have c: "fst (clean_data sample_env ?l) = Inr ()" by code_simp
  then have h3: "clean_data sample_env ?l = (Inr (), ?c)"
    by (simp add: cleaned_def prod_eq_iff)
  have h4: "frame ?c = Some (the (frame ?c))" by code_simp
  have v: "map date (rows (the (frame ?c)))
     = [Timestamp (2023, 1, 2, 0), Timestamp (2023, 1, 1, 0), Timestamp (2023, 1, 3, 0)]"
    by code_simp
  have h5: "argsort_ok (map date_key (rows (the (frame ?c))))
        (quicksort_datetime sample_env (map date_key (rows (the (frame ?c)))))"
    by code_simp
  from transform_data_sorts_by_date [OF h1 h2 h3 h4 h5] obtain s' t'
    where run: "transform_data sample_env ?c = (Inr (), s')"
      and f: "frame s' = Some t'" and srt: "sorted (map date_key (rows t'))"
    by blast
  from run have t: "fst (transform_data sample_env ?c) = Inr ()"
    and "transformed ''weather.csv'' = s'"
    by (simp_all add: transformed_def)
  with f srt have a: "sorted (map date_key (rows (the (frame (transformed ''weather.csv'')))))"
    by simp
  from h1 have h0: "frame ?l \<noteq> None" by blast
  from h4 have h4': "frame ?c \<noteq> None" by blast
  show ?thesis by (intro conjI) (fact h0 h2 c h4' v h5 t a)+
qed

text \<open>
  The claim as stated fails: eighteen rows of one date, cleaned without change, are
  sorted by the introsort kernel, which is a correct sorting kernel on their keys, and
  come out in another order.
\<close>

theorem transform_data_not_stable_counterexample:
  "fst (clean_data sample_env (loaded ''same_day.csv'')) = Inr ()
   \<and> map_option (\<lambda>t. map (\<lambda>r. (date r, city r)) (rows t)) (frame (cleaned ''same_day.csv''))
     = Some (map (\<lambda>c. (Timestamp (2023, 1, 1, 0), Some c))
          [''c01'', ''c02'', ''c03'', ''c04'', ''c05'', ''c06'', ''c07'', ''c08'', ''c09'',
           ''c10'', ''c11'', ''c12'', ''c13'', ''c14'', ''c15'', ''c16'', ''c17'', ''c18''])
   \<and> argsort_ok (map date_key (rows (the (frame (cleaned ''same_day.csv'')))))
        (quicksort_datetime sample_env
           (map date_key (rows (the (frame (cleaned ''same_day.csv''))))))
   \<and> fst (transform_data sample_env (cleaned ''same_day.csv'')) = Inr ()
   \<and> map_option (\<lambda>t. map (\<lambda>r. (date r, city r)) (rows t)) (frame (transformed ''same_day.csv''))
     = Some (map (\<lambda>c. (Timestamp (2023, 1, 1, 0), Some c))
          [''c01'', ''c16'', ''c15'', ''c14'', ''c13'', ''c12'', ''c11'', ''c10'', ''c09'',
           ''c08'', ''c07'', ''c06'', ''c05'', ''c04'', ''c03'', ''c02'', ''c17'', ''c18''])"
  by code_simp

end
